theory Spec2Isabelle
  imports Main "HOL-Library.Sublist"
begin


section \<open>Strings and byte buffers\<close>

text \<open>
  A Node \<open>Buffer\<close> is a list of bytes; a HOL \<open>char\<close> is one byte, so a buffer is a
  \<open>char list\<close>.  JavaScript strings are modelled by the same type: the model covers the
  strings whose code units are below 256, which covers every ASCII URL and every pattern
  the program searches for.  \<open>buffer.toString('utf-8')\<close> keeps each ASCII byte as the same
  ASCII character and turns every other byte sequence into non-ASCII characters, and
  \<open>toLowerCase\<close> maps no such character onto a letter of the ASCII patterns searched below,
  so an ASCII pattern is found in the decoded, lower-cased text exactly when it is found in
  the bytes with the ASCII letters lower-cased.  Decoding is therefore the identity here.
\<close>

type_synonym buffer = "char list"

text \<open>\<open>buffer[i]\<close>: the byte, or \<open>undefined\<close> (here \<open>None\<close>) beyond the end.\<close>

definition byte_at :: "buffer \<Rightarrow> nat \<Rightarrow> char option" where
  "byte_at buf i = (if i < length buf then Some (buf ! i) else None)"

text \<open>\<open>toLowerCase\<close> on the ASCII letters; every other character is left as it is, which
  does not change whether one of the ASCII patterns searched below occurs.\<close>

definition lower_char :: "char \<Rightarrow> char" where
  "lower_char c =
     (case map_of (zip ''ABCDEFGHIJKLMNOPQRSTUVWXYZ'' ''abcdefghijklmnopqrstuvwxyz'') c of
        None \<Rightarrow> c
      | Some l \<Rightarrow> l)"

definition toLowerCase :: "string \<Rightarrow> string" where
  "toLowerCase s = map lower_char s"

fun startsWith :: "string \<Rightarrow> string \<Rightarrow> bool" where
  "startsWith s [] = True"
| "startsWith [] (p # ps) = False"
| "startsWith (c # cs) (p # ps) = (c = p \<and> startsWith cs ps)"

fun str_includes :: "string \<Rightarrow> string \<Rightarrow> bool" where
  "str_includes [] pat = startsWith [] pat"
| "str_includes (c # cs) pat = (startsWith (c # cs) pat \<or> str_includes cs pat)"

text \<open>The white space of \<open>String.prototype.trim\<close> and of the regular expression class
  \<open>\s\<close>, among the code units below 256: TAB, LF, VT, FF, CR, space and NBSP.\<close>

definition is_space :: "char \<Rightarrow> bool" where
  "is_space c = (c \<in> set [CHR 0x09, CHR 0x0A, CHR 0x0B, CHR 0x0C, CHR 0x0D, CHR 0x20, CHR 0xA0])"

definition trim :: "string \<Rightarrow> string" where
  "trim s = rev (dropWhile is_space (rev (dropWhile is_space s)))"

section \<open>Signature validation: \<open>validateFileType\<close>\<close>

text \<open>The local file system: the content of each path that holds a file.\<close>

type_synonym path = string
type_synonym filesystem = "path \<Rightarrow> buffer option"

definition PNG_MAGIC :: "buffer \<Rightarrow> bool" where
  "PNG_MAGIC buffer =
     (byte_at buffer 0 = Some (CHR 0x89) \<and> byte_at buffer 1 = Some (CHR 0x50) \<and>
      byte_at buffer 2 = Some (CHR 0x4E) \<and> byte_at buffer 3 = Some (CHR 0x47))"

definition JPEG_MAGIC :: "buffer \<Rightarrow> bool" where
  "JPEG_MAGIC buffer =
     (byte_at buffer 0 = Some (CHR 0xFF) \<and> byte_at buffer 1 = Some (CHR 0xD8) \<and>
      byte_at buffer 2 = Some (CHR 0xFF))"

definition GIF_MAGIC :: "buffer \<Rightarrow> bool" where
  "GIF_MAGIC buffer =
     (byte_at buffer 0 = Some (CHR 0x47) \<and> byte_at buffer 1 = Some (CHR 0x49) \<and>
      byte_at buffer 2 = Some (CHR 0x46) \<and> byte_at buffer 3 = Some (CHR 0x38))"

definition FTYP_MAGIC :: "buffer \<Rightarrow> bool" where
  "FTYP_MAGIC buffer =
     (length buffer \<ge> 8 \<and> byte_at buffer 4 = Some (CHR 0x66) \<and>
      byte_at buffer 5 = Some (CHR 0x74) \<and> byte_at buffer 6 = Some (CHR 0x79) \<and>
      byte_at buffer 7 = Some (CHR 0x70))"

text \<open>
  The checks of \<open>validateFileType\<close> on the bytes read.  \<open>fs.promises.readFile\<close> ignores the
  \<open>start\<close>/\<open>end\<close> options it is given, so \<open>buffer\<close> is the whole file; the text searched
  for markup is its first 100 bytes.  An \<open>expectedType\<close> other than \<open>'video'\<close> and
  \<open>'image'\<close> is accepted.
\<close>

definition validateBuffer :: "buffer \<Rightarrow> string \<Rightarrow> bool" where
  "validateBuffer buffer expectedType =
     (if expectedType = ''video'' then
        (if PNG_MAGIC buffer then False
         else let text = toLowerCase (take (min 100 (length buffer)) buffer) in
           if str_includes text ''<!doctype'' \<or> str_includes text ''<html'' then False
           else if FTYP_MAGIC buffer then True
           else False)
      else if expectedType = ''image'' then
        (if PNG_MAGIC buffer \<or> JPEG_MAGIC buffer \<or> GIF_MAGIC buffer then True else False)
      else True)"

text \<open>\<open>fs.promises.stat\<close> throws when the path holds no file; the \<open>catch\<close> turns every
  exception into \<open>false\<close>.  A file of fewer than 4 bytes is rejected.\<close>

definition validateFileType :: "filesystem \<Rightarrow> path \<Rightarrow> string \<Rightarrow> bool" where
  "validateFileType fs filePath expectedType =
     (case fs filePath of
        None \<Rightarrow> False
      | Some buffer \<Rightarrow>
          if length buffer < 4 then False else validateBuffer buffer expectedType)"

section \<open>HTML escaping: \<open>escapeHtml\<close>\<close>


text \<open>The decimal digits of a natural number, as \<open>String(n)\<close> writes them.\<close>

fun digits :: "nat \<Rightarrow> string" where
  "digits n =
     (if n < 10 then [''0123456789'' ! n]
      else digits (n div 10) @ [''0123456789'' ! (n mod 10)])"







section \<open>Slides\<close>

text \<open>
  A slide descriptor of the input JSON, with the fields the functions below read or
  write; every other field travels in the record's extension (the JavaScript spread
  \<open>{...slide, title: t}\<close> is a record update).  The \<open>content\<close> of a \<open>content_bullets\<close>
  slide is an array of items; the \<open>content\<close> object of a \<open>module_description\<close> slide is
  flattened into \<open>content_video_url\<close> and \<open>content_image_url\<close>.  The underscore fields
  \<open>_video_url\<close>, \<open>_image_url\<close>, \<open>_splitSlide\<close>, \<open>_splitIndex\<close>, \<open>_splitTotal\<close> and
  \<open>_mergedSections\<close> are \<open>own_video_url\<close>, \<open>own_image_url\<close>, \<open>splitSlide\<close>, \<open>splitIndex\<close>,
  \<open>splitTotal\<close> and \<open>mergedSections\<close>; \<open>diagram.type\<close> and \<open>diagram.code\<close> are \<open>diagram_type\<close>
  and \<open>diagram_code\<close>.  An absent (or \<open>null\<close>) field is \<open>None\<close>.
\<close>

record item =
  "text" :: "string option"

record 'i slide =
  type :: string
  title :: "string option"
  date :: "string option"
  content :: "'i list option"
  own_video_url :: "string option"
  own_image_url :: "string option"
  content_video_url :: "string option"
  content_image_url :: "string option"
  splitSlide :: "bool option"
  splitIndex :: "nat option"
  splitTotal :: "nat option"
  mergedSections :: "string list option"
  diagram_type :: "string option"
  diagram_code :: "string option"

text \<open>\<open>x || ''\<close> for a field that holds a string when present.\<close>

definition or_empty :: "string option \<Rightarrow> string" where
  "or_empty x = (case x of None \<Rightarrow> [] | Some s \<Rightarrow> s)"

section \<open>The title-slide renderer: \<open>generateTitleSlideHTML\<close>\<close>

definition nl :: string where
  "nl = [CHR 0x0A]"



section \<open>Service identifiers: \<open>extractGoogleDriveId\<close>\<close>

text \<open>The character class \<open>[a-zA-Z0-9_-]\<close>.\<close>

definition is_id_char :: "char \<Rightarrow> bool" where
  "is_id_char c =
     (c \<in> set ''abcdefghijklmnopqrstuvwxyzABCDEFGHIJKLMNOPQRSTUVWXYZ0123456789_-'')"

text \<open>
  \<open>s.match(/pre([a-zA-Z0-9_-]+)/)\<close> for a literal \<open>pre\<close>: the leftmost position where
  \<open>pre\<close> is followed by at least one character of the class; the capture group is the
  longest run of such characters there.  \<open>None\<close> is JavaScript's \<open>null\<close>.
\<close>

fun match_token :: "string \<Rightarrow> string \<Rightarrow> string option" where
  "match_token pre [] = None"
| "match_token pre (c # cs) =
     (if startsWith (c # cs) pre \<and> takeWhile is_id_char (drop (length pre) (c # cs)) \<noteq> []
      then Some (takeWhile is_id_char (drop (length pre) (c # cs)))
      else match_token pre cs)"

text \<open>
  The platform's \<open>URL\<close> class, for a URL parsed without a base.  The model follows the
  URL standard in these steps: leading and trailing C0 control characters and spaces are
  removed, then every tab and newline; the fragment starts at the first \<open>#\<close> and the query
  at the first \<open>?\<close> before it; the scheme is the text before the first colon, a letter
  followed by letters, digits, \<open>+\<close>, \<open>-\<close> or \<open>.\<close> (without it \<open>new URL\<close> throws, here \<open>None\<close>);
  after a special scheme (\<open>http\<close>, \<open>https\<close>, \<open>ftp\<close>, \<open>ws\<close>, \<open>wss\<close>) any run of slashes and
  backslashes is skipped, the host (which must not be empty) ends at the next slash or
  backslash, backslashes in the path count as slashes and an empty path is \<open>/\<close>; after
  another scheme the text is an authority and a path when it starts with \<open>//\<close>, and an
  opaque path otherwise.  In a path every segment \<open>.\<close> is dropped and every segment \<open>..\<close>
  drops the segment before it, and the characters of the path percent-encode set (C0
  controls, space, \<open>"\<close>, \<open><\<close>, \<open>>\<close>, \<open>`\<close>, \<open>{\<close>, \<open>}\<close> and everything above \<open>~\<close>) are written as
  \<open>%XX\<close>; a character of this model is a code unit below 256, and one above 127 is written
  as the two bytes of its UTF-8 form.  Not modelled: the validation of host and port, the
  \<open>file\<close> scheme's drive letters, the encoding of an opaque path, and the caret, which
  later editions of the standard add to the set.
\<close>

fun split_first :: "char \<Rightarrow> string \<Rightarrow> string \<times> string option" where
  "split_first d [] = ([], None)"
| "split_first d (c # cs) =
     (if c = d then ([], Some cs)
      else case split_first d cs of (a, b) \<Rightarrow> (c # a, b))"

fun split_on :: "char \<Rightarrow> string \<Rightarrow> string list" where
  "split_on d [] = [] # []"
| "split_on d (c # cs) =
     (if c = d then [] # split_on d cs
      else case split_on d cs of [] \<Rightarrow> [c] # [] | w # ws \<Rightarrow> (c # w) # ws)"

record URL =
  pathname :: string
  search :: string

definition is_c0_or_space :: "char \<Rightarrow> bool" where
  "is_c0_or_space c = ((of_char c :: nat) \<le> 32)"

definition is_tab_or_newline :: "char \<Rightarrow> bool" where
  "is_tab_or_newline c = (c = CHR 0x09 \<or> c = CHR 0x0A \<or> c = CHR 0x0D)"

definition clean_url :: "string \<Rightarrow> string" where
  "clean_url url =
     filter (\<lambda>c. \<not> is_tab_or_newline c)
       (rev (dropWhile is_c0_or_space (rev (dropWhile is_c0_or_space url))))"

definition is_scheme :: "string \<Rightarrow> bool" where
  "is_scheme s =
     (case s of
        [] \<Rightarrow> False
      | c # cs \<Rightarrow>
          c \<in> set ''abcdefghijklmnopqrstuvwxyzABCDEFGHIJKLMNOPQRSTUVWXYZ'' \<and>
          list_all (\<lambda>x. x \<in> set
            ''abcdefghijklmnopqrstuvwxyzABCDEFGHIJKLMNOPQRSTUVWXYZ0123456789+-.'') cs)"

definition is_special_scheme :: "string \<Rightarrow> bool" where
  "is_special_scheme s =
     (toLowerCase s \<in> set [''http'', ''https'', ''ftp'', ''ws'', ''wss''])"

definition is_slash :: "char \<Rightarrow> bool" where
  "is_slash c = (c = CHR ''/'' \<or> c = CHR 0x5C)"

definition hex_byte :: "nat \<Rightarrow> string" where
  "hex_byte n = [CHR ''%'', ''0123456789ABCDEF'' ! (n div 16), ''0123456789ABCDEF'' ! (n mod 16)]"

definition encode_path_char :: "char \<Rightarrow> string" where
  "encode_path_char c =
     (let n = (of_char c :: nat) in
      if n \<ge> 128 then hex_byte (192 + n div 64) @ hex_byte (128 + n mod 64)
      else if n \<le> 32 \<or> n = 127 \<or> c \<in> set [CHR 0x22, CHR ''<'', CHR ''>'', CHR 0x60, CHR ''{'', CHR ''}'']
      then hex_byte n
      else [c])"

definition is_single_dot :: "string \<Rightarrow> bool" where
  "is_single_dot s = (toLowerCase s \<in> set [''.'', ''%2e''])"

definition is_double_dot :: "string \<Rightarrow> bool" where
  "is_double_dot s = (toLowerCase s \<in> set [''..'', ''.%2e'', ''%2e.'', ''%2e%2e''])"

text \<open>The path state of the parser: \<open>acc\<close> holds the segments kept so far.\<close>

fun path_segments :: "string list \<Rightarrow> string list \<Rightarrow> string list" where
  "path_segments acc [] = acc"
| "path_segments acc (s # rest) =
     (if is_double_dot s then path_segments (if rest = [] then butlast acc @ [[]] else butlast acc) rest
      else if is_single_dot s then path_segments (if rest = [] then acc @ [[]] else acc) rest
      else path_segments (acc @ [concat (map encode_path_char s)]) rest)"

definition parse_path :: "string \<Rightarrow> string" where
  "parse_path p =
     concat (map (\<lambda>s. CHR ''/'' # s) (path_segments [] (split_on CHR ''/'' (drop 1 p))))"

definition new_URL :: "string \<Rightarrow> URL option" where
  "new_URL url =
     (case split_first CHR ''#'' (clean_url url) of (no_fragment, fragment) \<Rightarrow>
      case split_first CHR ''?'' no_fragment of (no_query, query) \<Rightarrow>
      case split_first CHR '':'' no_query of (scheme, after) \<Rightarrow>
      case after of
        None \<Rightarrow> None
      | Some hier \<Rightarrow>
          if \<not> is_scheme scheme then None
          else if is_special_scheme scheme then
            (let authority_path = dropWhile is_slash hier;
                 host = takeWhile (\<lambda>c. \<not> is_slash c) authority_path;
                 p = map (\<lambda>c. if is_slash c then CHR ''/'' else c)
                       (dropWhile (\<lambda>c. \<not> is_slash c) authority_path)
             in if host = [] then None
                else Some \<lparr>pathname = parse_path p, search = or_empty query\<rparr>)
          else if startsWith hier ''//'' then
            (let p = dropWhile (\<lambda>c. c \<noteq> CHR ''/'') (drop 2 hier)
             in Some \<lparr>pathname = (if p = [] then [] else parse_path p),
                      search = or_empty query\<rparr>)
          else Some \<lparr>pathname = hier, search = or_empty query\<rparr>)"

text \<open>
  \<open>searchParams.get(name)\<close>: the query is cut at every \<open>&\<close>, empty pieces are dropped, each
  piece is cut at its first \<open>=\<close>, \<open>+\<close> becomes a space and \<open>%XX\<close> the byte with that
  hexadecimal code; the value of the first pair with the name is returned.  A decoded byte
  above 127 is kept as it is (the platform reads such bytes as UTF-8).
\<close>

definition hex_bits :: "char \<Rightarrow> (bool \<times> bool \<times> bool \<times> bool) option" where
  "hex_bits c =
     map_of
       [(CHR ''0'', (False, False, False, False)), (CHR ''1'', (True, False, False, False)),
        (CHR ''2'', (False, True, False, False)), (CHR ''3'', (True, True, False, False)),
        (CHR ''4'', (False, False, True, False)), (CHR ''5'', (True, False, True, False)),
        (CHR ''6'', (False, True, True, False)), (CHR ''7'', (True, True, True, False)),
        (CHR ''8'', (False, False, False, True)), (CHR ''9'', (True, False, False, True)),
        (CHR ''a'', (False, True, False, True)), (CHR ''b'', (True, True, False, True)),
        (CHR ''c'', (False, False, True, True)), (CHR ''d'', (True, False, True, True)),
        (CHR ''e'', (False, True, True, True)), (CHR ''f'', (True, True, True, True)),
        (CHR ''A'', (False, True, False, True)), (CHR ''B'', (True, True, False, True)),
        (CHR ''C'', (False, False, True, True)), (CHR ''D'', (True, False, True, True)),
        (CHR ''E'', (False, True, True, True)), (CHR ''F'', (True, True, True, True))] c"

fun percent_decode :: "string \<Rightarrow> string" where
  "percent_decode (c # h # l # cs) =
     (case (if c = CHR ''%'' then hex_bits h else None, hex_bits l) of
        (Some (h0, h1, h2, h3), Some (l0, l1, l2, l3)) \<Rightarrow>
          Char l0 l1 l2 l3 h0 h1 h2 h3 # percent_decode cs
      | _ \<Rightarrow> c # percent_decode (h # l # cs))"
| "percent_decode cs = cs"

definition form_decode :: "string \<Rightarrow> string" where
  "form_decode s = percent_decode (map (\<lambda>c. if c = CHR ''+'' then CHR '' '' else c) s)"

definition searchParams_get :: "URL \<Rightarrow> string \<Rightarrow> string option" where
  "searchParams_get u name =
     map_of
       (map (\<lambda>kv. case split_first CHR ''='' kv of
                     (k, v) \<Rightarrow> (form_decode k, form_decode (or_empty v)))
            (filter (\<lambda>kv. kv \<noteq> []) (split_on CHR ''&'' (search u))))
       name"

text \<open>\<open>extractGoogleDriveId\<close>: the path pattern first, then the query pattern on a path
  that contains \<open>open\<close>; an empty identifier is falsy and not returned.\<close>

definition extractGoogleDriveId :: "string \<Rightarrow> string option" where
  "extractGoogleDriveId url =
     (if url = [] then None
      else case match_token ''/file/d/'' url of
        Some m \<Rightarrow> Some m
      | None \<Rightarrow>
          (case new_URL url of
             None \<Rightarrow> None
           | Some urlObj \<Rightarrow>
               if str_includes (pathname urlObj) ''open'' then
                 (case searchParams_get urlObj ''id'' of
                    None \<Rightarrow> None
                  | Some i \<Rightarrow> if i \<noteq> [] then Some i else None)
               else None))"

section \<open>Slide aggregation: \<open>aggregateSlides\<close>\<close>

definition MAX_ITEMS_PER_SLIDE :: nat where
  "MAX_ITEMS_PER_SLIDE = 15"

definition baseTitle :: string where
  "baseTitle = ''System Requirements''"

text \<open>The test applied to \<open>slide\<close> and to \<open>nextSlide\<close>: a \<open>content_bullets\<close> slide whose
  (truthy) title starts with \<open>System Requirements:\<close> or is \<open>System Requirements\<close>.\<close>

definition is_system_requirements :: "('i, 'z) slide_scheme \<Rightarrow> bool" where
  "is_system_requirements slide =
     (type slide = ''content_bullets'' \<and>
      (case title slide of
         None \<Rightarrow> False
       | Some t \<Rightarrow> t \<noteq> [] \<and> (startsWith t ''System Requirements:'' \<or> t = ''System Requirements'')))"

text \<open>\<open>s.content || []\<close>.\<close>

definition content_items :: "('i, 'z) slide_scheme \<Rightarrow> 'i list" where
  "content_items s = (case content s of None \<Rightarrow> [] | Some c \<Rightarrow> c)"

text \<open>\<open>xs.join(sep)\<close>.\<close>

fun join :: "string \<Rightarrow> string list \<Rightarrow> string" where
  "join sep [] = []"
| "join sep [x] = x"
| "join sep (x # y # ys) = x @ sep @ join sep (y # ys)"

text \<open>\<open>text.match(/^power\s*:\s*standard/i)\<close> on the lower-cased text.\<close>

definition matches_power_standard :: "string \<Rightarrow> bool" where
  "matches_power_standard t =
     (startsWith t ''power'' \<and>
      startsWith (dropWhile is_space (drop 5 t)) '':'' \<and>
      startsWith (dropWhile is_space (drop 1 (dropWhile is_space (drop 5 t)))) ''standard'')"

text \<open>The predicate of \<open>systemReqSlides.filter\<close>: true for the slides that are kept.\<close>

definition non_trivial :: "('a item_scheme, 'z) slide_scheme \<Rightarrow> bool" where
  "non_trivial s =
     (let content = content_items s;
          text = toLowerCase (join '' '' (map (\<lambda>c. or_empty (text c)) content))
      in \<not> str_includes text ''none required'' \<and>
         \<not> str_includes text ''standard source'' \<and>
         \<not> matches_power_standard text)"

text \<open>\<open>s.replace(pat, rep)\<close> with a string pattern: the first occurrence only.\<close>

fun replace_first :: "string \<Rightarrow> string \<Rightarrow> string \<Rightarrow> string" where
  "replace_first pat rep [] = (if pat = [] then rep else [])"
| "replace_first pat rep (c # cs) =
     (if startsWith (c # cs) pat then rep @ drop (length pat) (c # cs)
      else c # replace_first pat rep cs)"

definition sectionTitle :: "('i, 'z) slide_scheme \<Rightarrow> string" where
  "sectionTitle s =
     (let t = trim (replace_first ''System Requirements:'' [] (or_empty (title s)))
      in if t = [] then ''General'' else t)"

text \<open>\<open>Math.ceil(a / b)\<close> for array lengths (\<open>b > 0\<close> where it is used).\<close>

definition ceil_div :: "nat \<Rightarrow> nat \<Rightarrow> nat" where
  "ceil_div a b = (a + b - 1) div b"

text \<open>\<open>xs.slice(startIdx, endIdx)\<close> for indices that are not negative.\<close>

definition slice :: "'a list \<Rightarrow> nat \<Rightarrow> nat \<Rightarrow> 'a list" where
  "slice xs startIdx endIdx = take (endIdx - startIdx) (drop startIdx xs)"

definition mergedContent :: "('a item_scheme, 'z) slide_scheme list \<Rightarrow> 'a item_scheme list" where
  "mergedContent nonTrivialSlides = concat (map content_items nonTrivialSlides)"

text \<open>One pass of the \<open>for\<close> loop that splits the merged content.\<close>

definition split_slide ::
  "('i, 'z) slide_scheme \<Rightarrow> 'i list \<Rightarrow> nat \<Rightarrow> nat \<Rightarrow> nat \<Rightarrow> ('i, 'z) slide_scheme" where
  "split_slide slide merged numSlides itemsPerSlide slideIdx =
     (let totalItems = length merged;
          startIdx = slideIdx * itemsPerSlide;
          endIdx = min (startIdx + itemsPerSlide) totalItems;
          slideContent = slice merged startIdx endIdx;
          slideTitle =
            (if numSlides > 1
             then baseTitle @ '' ('' @ digits (slideIdx + 1) @ ''/'' @ digits numSlides @ '')''
             else baseTitle)
      in slide\<lparr>title := Some slideTitle, content := Some slideContent,
               splitSlide := Some True, splitIndex := Some slideIdx,
               splitTotal := Some numSlides\<rparr>)"

text \<open>What the body of the \<open>if\<close> pushes for one run \<open>systemReqSlides\<close> of consecutive
  System Requirements slides that starts with \<open>slide\<close>.\<close>

definition aggregate_run ::
  "('a item_scheme, 'z) slide_scheme \<Rightarrow> ('a item_scheme, 'z) slide_scheme list \<Rightarrow>
   ('a item_scheme, 'z) slide_scheme list" where
  "aggregate_run slide systemReqSlides =
     (let nonTrivialSlides = filter non_trivial systemReqSlides in
      case nonTrivialSlides of
        [] \<Rightarrow> []
      | first # others \<Rightarrow>
          let merged = mergedContent nonTrivialSlides;
              sections = map sectionTitle nonTrivialSlides
          in if length merged > MAX_ITEMS_PER_SLIDE then
               (let totalItems = length merged;
                    numSlides = ceil_div totalItems MAX_ITEMS_PER_SLIDE;
                    itemsPerSlide = ceil_div totalItems numSlides
                in map (split_slide slide merged numSlides itemsPerSlide) [0..<numSlides])
             else if length nonTrivialSlides > 1 \<or>
                     (length nonTrivialSlides = 1 \<and> length systemReqSlides > 1) then
               [slide\<lparr>title := Some baseTitle, content := Some merged,
                       mergedSections := Some sections\<rparr>]
             else [first\<lparr>title := Some baseTitle\<rparr>])"

text \<open>The outer loop: a System Requirements slide is taken together with the System
  Requirements slides that follow it directly; every other slide is pushed as it is.\<close>

function aggregateSlides ::
  "('a item_scheme, 'z) slide_scheme list \<Rightarrow> ('a item_scheme, 'z) slide_scheme list" where
  "aggregateSlides [] = []"
| "aggregateSlides (slide # rest) =
     (if is_system_requirements slide
      then aggregate_run slide (slide # takeWhile is_system_requirements rest) @
           aggregateSlides (dropWhile is_system_requirements rest)
      else slide # aggregateSlides rest)"
  by pat_completeness auto
termination
  by (relation "measure length") (auto simp: length_dropWhile_le less_Suc_eq_le)

section \<open>The network, the browser and the file system as seen by the fetch workflow\<close>

text \<open>
  What one \<open>GET\<close> request can do: fail before any response (connection error, time-out,
  invalid URL), deliver a complete response, or deliver status 200 and then stall, so that
  the time-out rejects the promise after part of the body has reached the file.
\<close>

datatype http_result =
    NetworkError
  | Response (status: nat) (location: "string option") (content_type: "string option")
      (body: buffer)
  | Stalled (partial: buffer)

text \<open>
  A promise either rejects (\<open>Throws\<close>) or resolves with a value.  A Playwright download is
  what its \<open>saveAs\<close> does: it writes these bytes to the path, or it throws.
\<close>

datatype 'a outcome = Throws | Returns 'a

type_synonym download = "buffer outcome"

text \<open>
  The behaviour of one browser page, as far as the workflow observes it:
  \<^item> \<open>newPage_ok\<close>: \<open>newPage()\<close> resolves;
  \<^item> \<open>goto_ok\<close>: the first navigation (raced against the download event) resolves;
  \<^item> \<open>first_download\<close>: the download event armed before navigation, \<open>None\<close> when the wait
    times out (the source turns the rejection into \<open>null\<close>);
  \<^item> \<open>retry_download\<close>: the second, 10 second wait made for videos;
  \<^item> \<open>page_url\<close>: \<open>page.url()\<close> after navigation (the source reads it without awaiting in
    between, so it is one value);
  \<^item> \<open>regoto\<close>: \<open>page.goto(page.url())\<close>: throws, no response, or a status with what
    \<open>response.body()\<close> gives;
  \<^item> \<open>click\<close>: for a selector, \<open>Throws\<close> when finding or clicking the element throws,
    \<open>Returns None\<close> when there is no such element, \<open>Returns (Some d)\<close> when it was clicked
    and the download wait gave \<open>d\<close>;
  \<^item> \<open>form_click\<close>: the same for the submit control of the first form;
  \<^item> \<open>final_goto\<close>: the last navigation of \<open>downloadImage\<close>: status, content type, body;
  \<^item> \<open>plain_goto\<close>: \<open>page.goto(url)\<close> for a URL without identifier: the body of the
    response.
\<close>

record page_script =
  newPage_ok :: bool
  goto_ok :: bool
  first_download :: "download option"
  retry_download :: "download option"
  page_url :: string
  regoto :: "(nat \<times> buffer outcome) option outcome"
  click :: "string \<Rightarrow> download option option outcome"
  form_click :: "download option option outcome"
  final_goto :: "(nat \<times> string option \<times> buffer outcome) option outcome"
  plain_goto :: "buffer outcome option outcome"

text \<open>
  The environment of a run: the answer of the network to the \<open>n\<close>-th request (so the same
  URL may be answered differently each time), the platform's resolution of a relative
  \<open>Location\<close> header against the request URL, the script of the \<open>n\<close>-th page opened, and
  the image that the diagram tool renders for a Mermaid source (\<open>None\<close> when it fails).
\<close>

record env =
  net :: "nat \<Rightarrow> string \<Rightarrow> http_result"
  resolve :: "string \<Rightarrow> string \<Rightarrow> string"
  browser :: "nat \<Rightarrow> page_script"
  render :: "string \<Rightarrow> buffer option"

text \<open>
  The state the workflow changes: the files, the URLs requested so far over HTTP (in
  order; a trace that the program itself does not keep) and the number of pages opened.
  Local file operations on an existing file are taken to succeed.
\<close>

record world =
  files :: filesystem
  requests :: "string list"
  pages :: nat

definition writeFile :: "path \<Rightarrow> buffer \<Rightarrow> world \<Rightarrow> world" where
  "writeFile p b w = w\<lparr>files := (files w)(p \<mapsto> b)\<rparr>"

text \<open>\<open>fs.promises.unlink(p).catch(() => {})\<close>.\<close>

definition unlink :: "path \<Rightarrow> world \<Rightarrow> world" where
  "unlink p w = w\<lparr>files := (files w)(p := None)\<rparr>"

definition request :: "env \<Rightarrow> string \<Rightarrow> world \<Rightarrow> http_result \<times> world" where
  "request e url w = (net e (length (requests w)) url, w\<lparr>requests := requests w @ [url]\<rparr>)"

definition is_redirect :: "nat \<Rightarrow> string option \<Rightarrow> bool" where
  "is_redirect st loc = (300 \<le> st \<and> st < 400 \<and> or_empty loc \<noteq> [])"

definition redirectUrl :: "env \<Rightarrow> string option \<Rightarrow> string \<Rightarrow> string" where
  "redirectUrl e loc url =
     (if startsWith (or_empty loc) ''http'' then or_empty loc else resolve e (or_empty loc) url)"

section \<open>\<open>downloadFileDirect\<close> and \<open>fetchResponse\<close>\<close>

text \<open>
  \<open>downloadFileDirect env maxRedirects followRedirects url outputPath\<close>: the result is
  \<open>True\<close> when the promise resolves.  The hop counter decreases at every redirect, and the
  recursive call always follows redirects.
\<close>

fun downloadFileDirect ::
  "env \<Rightarrow> nat \<Rightarrow> bool \<Rightarrow> string \<Rightarrow> path \<Rightarrow> world \<Rightarrow> bool \<times> world" where
  "downloadFileDirect e 0 followRedirects url outputPath w = (False, w)"
| "downloadFileDirect e (Suc maxRedirects) followRedirects url outputPath w =
     (case request e url w of
        (NetworkError, w1) \<Rightarrow> (False, w1)
      | (Stalled b, w1) \<Rightarrow> (False, writeFile outputPath b w1)
      | (Response st loc ct b, w1) \<Rightarrow>
          if followRedirects \<and> is_redirect st loc
          then downloadFileDirect e maxRedirects True (redirectUrl e loc url) outputPath w1
          else if st \<noteq> 200 then (False, w1)
          else (True, writeFile outputPath b w1))"

text \<open>
  \<open>fetchResponse\<close> follows redirects without a bound, so it need not return: the result is
  \<open>None\<close> when it runs forever, \<open>Some (None, w)\<close> when the promise rejects, and
  \<open>Some (Some (content type, body), w)\<close> when it resolves.
\<close>

partial_function (option) fetchResponse ::
  "env \<Rightarrow> string \<Rightarrow> world \<Rightarrow> ((string option \<times> buffer) option \<times> world) option" where
  "fetchResponse e url w =
     (case request e url w of
        (NetworkError, w1) \<Rightarrow> Some (None, w1)
      | (Stalled b, w1) \<Rightarrow> Some (None, w1)
      | (Response st loc ct b, w1) \<Rightarrow>
          if is_redirect st loc then fetchResponse e (redirectUrl e loc url) w1
          else if st \<noteq> 200 then Some (None, w1)
          else Some (Some (ct, b), w1))"

declare fetchResponse.simps [code]

section \<open>\<open>downloadGoogleDriveFile\<close>\<close>

definition expectedType :: "bool \<Rightarrow> string" where
  "expectedType isVideo = (if isVideo then ''video'' else ''image'')"

text \<open>\<open>(await fs.promises.stat(p)).size\<close>; \<open>None\<close> when \<open>stat\<close> throws.\<close>

definition stat_size :: "world \<Rightarrow> path \<Rightarrow> nat option" where
  "stat_size w p = map_option length (files w p)"

text \<open>
  The block that \<open>downloadGoogleDriveFile\<close> repeats for the download URL, for the token URL
  and for the \<open>confirm=t\<close> URL: download with redirects, then accept the file only if it has
  more than 1000 bytes and passes validation; a larger file that fails validation is
  deleted.  \<open>True\<close> stands for \<open>return outputPath\<close>.
\<close>

definition direct_attempt ::
  "env \<Rightarrow> string \<Rightarrow> path \<Rightarrow> bool \<Rightarrow> world \<Rightarrow> bool \<times> world" where
  "direct_attempt e url outputPath isVideo w =
     (case downloadFileDirect e 5 True url outputPath w of
        (False, w1) \<Rightarrow> (False, w1)
      | (True, w1) \<Rightarrow>
          (case stat_size w1 outputPath of
             None \<Rightarrow> (False, w1)
           | Some sz \<Rightarrow>
               if sz > 1000 then
                 (if validateFileType (files w1) outputPath (expectedType isVideo)
                  then (True, w1)
                  else (False, unlink outputPath w1))
               else (False, w1)))"

definition downloadUrl_of :: "string \<Rightarrow> string" where
  "downloadUrl_of fileId = ''https://drive.google.com/uc?export=download&id='' @ fileId"

definition tokenUrl_of :: "string \<Rightarrow> string \<Rightarrow> string" where
  "tokenUrl_of fileId confirmToken =
     ''https://drive.google.com/uc?export=download&id='' @ fileId @ ''&confirm='' @ confirmToken"

definition confirmTUrl_of :: "string \<Rightarrow> string" where
  "confirmTUrl_of fileId =
     ''https://drive.google.com/uc?export=download&id='' @ fileId @ ''&confirm=t''"

definition viewUrl_of :: "string \<Rightarrow> string" where
  "viewUrl_of fileId = ''https://drive.google.com/uc?export=view&id='' @ fileId"

text \<open>The test that the fetched response is markup.\<close>

definition is_html_response :: "string option \<Rightarrow> buffer \<Rightarrow> bool" where
  "is_html_response ct b =
     (str_includes (toLowerCase (or_empty ct)) ''text/html'' \<or>
      str_includes (toLowerCase (take 100 b)) ''<!doctype'')"

definition downloadGoogleDriveFile ::
  "env \<Rightarrow> string \<Rightarrow> path \<Rightarrow> bool \<Rightarrow> world \<Rightarrow> (path option \<times> world) option" where
  "downloadGoogleDriveFile e fileId outputPath isVideo w =
     (case direct_attempt e (downloadUrl_of fileId) outputPath isVideo w of
        (True, w1) \<Rightarrow> Some (Some outputPath, w1)
      | (False, w1) \<Rightarrow>
          Option.bind (fetchResponse e (downloadUrl_of fileId) w1) (\<lambda>(response, w2).
            case response of
              None \<Rightarrow> Some (None, w2)
            | Some (contentType, htmlContent) \<Rightarrow>
                if is_html_response contentType htmlContent then
                  (let (token_ok, w3) =
                     (case match_token ''confirm='' htmlContent of
                        None \<Rightarrow> (False, w2)
                      | Some confirmToken \<Rightarrow>
                          direct_attempt e (tokenUrl_of fileId confirmToken) outputPath isVideo w2)
                   in if token_ok then Some (Some outputPath, w3)
                      else (case direct_attempt e (confirmTUrl_of fileId) outputPath isVideo w3 of
                              (True, w4) \<Rightarrow> Some (Some outputPath, w4)
                            | (False, w4) \<Rightarrow> Some (None, w4)))
                else if length htmlContent > 1000 then
                  (let w3 = writeFile outputPath htmlContent w2 in
                   if validateFileType (files w3) outputPath (expectedType isVideo)
                   then Some (Some outputPath, w3)
                   else Some (None, unlink outputPath w3))
                else Some (None, w2)))"

section \<open>The browser fallback\<close>

definition selectors :: "string list" where
  \<open>selectors =
     [''button#uc-download-link'',
      ''a#uc-download-link'',
      ''button[aria-label*="Download"]'',
      ''a[aria-label*="Download"]'',
      ''form[action*="download"] button'',
      ''form[action*="download"] input[type="submit"]'',
      ''input[type="submit"][value*="Download"]'']\<close>

text \<open>The loop over the selectors: it stops at the first click that yields a download;
  a selector that throws, matches nothing or yields no download is passed over.\<close>

fun try_selectors ::
  "(string \<Rightarrow> download option option outcome) \<Rightarrow> string list \<Rightarrow> download option" where
  "try_selectors cl [] = None"
| "try_selectors cl (selector # rest) =
     (case cl selector of
        Returns (Some (Some d)) \<Rightarrow> Some d
      | _ \<Rightarrow> try_selectors cl rest)"

text \<open>The selectors, then (when none gave a download) the submit control of the form;
  every exception in this block is caught and logged.\<close>

definition click_for_download :: "page_script \<Rightarrow> download option" where
  "click_for_download page =
     (case try_selectors (click page) selectors of
        Some d \<Rightarrow> Some d
      | None \<Rightarrow> (case form_click page of Returns (Some d) \<Rightarrow> d | _ \<Rightarrow> None))"

text \<open>\<open>downloadFile\<close>, a download was obtained: save it, and return the path only for a
  non-empty file that passes validation; an invalid file is deleted.  An exception of
  \<open>saveAs\<close> reaches the outer \<open>catch\<close>, which returns \<open>null\<close>.\<close>

definition save_validated :: "download \<Rightarrow> path \<Rightarrow> bool \<Rightarrow> world \<Rightarrow> path option \<times> world" where
  "save_validated d outputPath isVideo w =
     (case d of
        Throws \<Rightarrow> (None, w)
      | Returns b \<Rightarrow>
          let w1 = writeFile outputPath b w in
          if length b > 0 then
            (if validateFileType (files w1) outputPath (expectedType isVideo)
             then (Some outputPath, w1)
             else (None, unlink outputPath w1))
          else (None, w1))"

text \<open>\<open>downloadFile\<close>, videos on a \<open>googleusercontent\<close> page: load the page URL again and take
  the response body as the file.\<close>

definition regoto_attempt :: "page_script \<Rightarrow> path \<Rightarrow> bool \<Rightarrow> world \<Rightarrow> bool \<times> world" where
  "regoto_attempt page outputPath isVideo w =
     (case regoto page of
        Returns (Some (st, Returns buffer)) \<Rightarrow>
          if st = 200 \<and> length buffer > 1000 then
            (let w1 = writeFile outputPath buffer w in
             if validateFileType (files w1) outputPath (expectedType isVideo)
             then (True, w1)
             else (False, unlink outputPath w1))
          else (False, w)
      | _ \<Rightarrow> (False, w))"

text \<open>The browser fallback of \<open>downloadFile\<close> for a URL with an identifier.\<close>

definition playwright_drive_file ::
  "env \<Rightarrow> path \<Rightarrow> bool \<Rightarrow> world \<Rightarrow> path option \<times> world" where
  "playwright_drive_file e outputPath isVideo w0 =
     (let page = browser e (pages w0);
          w = w0\<lparr>pages := Suc (pages w0)\<rparr>
      in if \<not> newPage_ok page \<or> \<not> goto_ok page then (None, w)
         else
           let download =
                 (case first_download page of
                    Some d \<Rightarrow> Some d
                  | None \<Rightarrow> if isVideo then retry_download page else None)
           in case download of
                Some d \<Rightarrow> save_validated d outputPath isVideo w
              | None \<Rightarrow>
                  if str_includes (page_url page) ''confirm='' \<or>
                     str_includes (page_url page) ''virusScanWarning'' \<or>
                     str_includes (page_url page) ''googleusercontent''
                  then
                    (case (if isVideo \<and> str_includes (page_url page) ''googleusercontent''
                           then regoto_attempt page outputPath isVideo w else (False, w)) of
                       (True, w1) \<Rightarrow> (Some outputPath, w1)
                     | (False, w1) \<Rightarrow>
                         (case click_for_download page of
                            Some d \<Rightarrow> save_validated d outputPath isVideo w1
                          | None \<Rightarrow> (None, w1)))
                  else (None, w))"

text \<open>The browser fallback for a URL without identifier, with (\<open>downloadFile\<close>) or without
  (\<open>downloadImage\<close>) validation of what was written.\<close>

definition playwright_plain ::
  "env \<Rightarrow> path \<Rightarrow> string option \<Rightarrow> world \<Rightarrow> path option \<times> world" where
  "playwright_plain e outputPath validate_as w0 =
     (let page = browser e (pages w0);
          w = w0\<lparr>pages := Suc (pages w0)\<rparr>
      in if \<not> newPage_ok page then (None, w)
         else case plain_goto page of
                Returns (Some (Returns buffer)) \<Rightarrow>
                  if length buffer > 0 then
                    (let w1 = writeFile outputPath buffer w in
                     case validate_as of
                       None \<Rightarrow> (Some outputPath, w1)
                     | Some ty \<Rightarrow>
                         if validateFileType (files w1) outputPath ty
                         then (Some outputPath, w1) else (None, w1))
                  else (None, w)
              | _ \<Rightarrow> (None, w))"

section \<open>\<open>downloadFile\<close> and \<open>downloadVideo\<close>\<close>

text \<open>Step 2 of \<open>downloadFile\<close>, images only: the view URL.  A file of more than 1000 bytes
  is returned as it is; a smaller one is deleted.\<close>

definition view_attempt :: "env \<Rightarrow> string \<Rightarrow> path \<Rightarrow> world \<Rightarrow> bool \<times> world" where
  "view_attempt e fileId outputPath w =
     (case downloadFileDirect e 5 True (viewUrl_of fileId) outputPath w of
        (False, w1) \<Rightarrow> (False, w1)
      | (True, w1) \<Rightarrow>
          (case stat_size w1 outputPath of
             None \<Rightarrow> (False, w1)
           | Some sz \<Rightarrow> if sz > 1000 then (True, w1) else (False, unlink outputPath w1)))"

text \<open>The branch of \<open>downloadFile\<close> for a URL without identifier.  The browser is tried only
  when the direct download throws; a file that was written but fails validation stays.\<close>

definition download_plain_file ::
  "env \<Rightarrow> string \<Rightarrow> path \<Rightarrow> bool \<Rightarrow> world \<Rightarrow> path option \<times> world" where
  "download_plain_file e url outputPath isVideo w =
     (case downloadFileDirect e 5 True url outputPath w of
        (True, w1) \<Rightarrow>
          (case stat_size w1 outputPath of
             None \<Rightarrow> playwright_plain e outputPath (Some (expectedType isVideo)) w1
           | Some sz \<Rightarrow>
               if sz > 0 \<and> validateFileType (files w1) outputPath (expectedType isVideo)
               then (Some outputPath, w1)
               else (None, w1))
      | (False, w1) \<Rightarrow> playwright_plain e outputPath (Some (expectedType isVideo)) w1)"

text \<open>\<open>downloadFile\<close>.  The result is \<open>None\<close> when the call does not return, otherwise the
  returned path (\<open>None\<close> for \<open>null\<close>) and the new state.\<close>

definition downloadFile ::
  "env \<Rightarrow> string \<Rightarrow> path \<Rightarrow> bool \<Rightarrow> world \<Rightarrow> (path option \<times> world) option" where
  "downloadFile e url outputPath isVideo w =
     (if url = [] \<or> trim url = [] then Some (None, w)
      else case extractGoogleDriveId url of
        Some fileId \<Rightarrow>
          Option.bind (downloadGoogleDriveFile e fileId outputPath isVideo w) (\<lambda>(result, w1).
            case result of
              Some p \<Rightarrow> Some (Some p, w1)
            | None \<Rightarrow>
                (case (if \<not> isVideo then view_attempt e fileId outputPath w1 else (False, w1)) of
                   (True, w2) \<Rightarrow> Some (Some outputPath, w2)
                 | (False, w2) \<Rightarrow> Some (playwright_drive_file e outputPath isVideo w2)))
      | None \<Rightarrow> Some (download_plain_file e url outputPath isVideo w))"

definition downloadVideo ::
  "env \<Rightarrow> string \<Rightarrow> path \<Rightarrow> world \<Rightarrow> (path option \<times> world) option" where
  "downloadVideo e url outputPath w = downloadFile e url outputPath True w"

section \<open>\<open>downloadImage\<close>\<close>

text \<open>A direct download of \<open>downloadImage\<close>: the file is accepted when it has more than
  1000 bytes; nothing is validated and nothing is deleted.\<close>

definition direct_unvalidated ::
  "env \<Rightarrow> bool \<Rightarrow> string \<Rightarrow> path \<Rightarrow> world \<Rightarrow> bool \<times> world" where
  "direct_unvalidated e followRedirects url outputPath w =
     (case downloadFileDirect e 5 followRedirects url outputPath w of
        (False, w1) \<Rightarrow> (False, w1)
      | (True, w1) \<Rightarrow>
          (case stat_size w1 outputPath of
             None \<Rightarrow> (False, w1)
           | Some sz \<Rightarrow> (sz > 1000, w1)))"

text \<open>The last navigation of \<open>downloadImage\<close>: a 200 response whose content type is an image
  type, \<open>application/octet-stream\<close> or absent, with a non-empty body.\<close>

definition final_goto_attempt :: "page_script \<Rightarrow> path \<Rightarrow> world \<Rightarrow> path option \<times> world" where
  "final_goto_attempt page outputPath w =
     (case final_goto page of
        Returns (Some (st, ct, Returns buffer)) \<Rightarrow>
          if st = 200 \<and>
             (startsWith (or_empty ct) ''image/'' \<or> or_empty ct = ''application/octet-stream'' \<or>
              or_empty ct = []) \<and>
             length buffer > 0
          then (Some outputPath, writeFile outputPath buffer w)
          else (None, w)
      | _ \<Rightarrow> (None, w))"

definition playwright_drive_image :: "env \<Rightarrow> path \<Rightarrow> world \<Rightarrow> path option \<times> world" where
  "playwright_drive_image e outputPath w0 =
     (let page = browser e (pages w0);
          w = w0\<lparr>pages := Suc (pages w0)\<rparr>
      in if \<not> newPage_ok page \<or> \<not> goto_ok page then (None, w)
         else
           let download =
                 (case first_download page of
                    Some d \<Rightarrow> Some d
                  | None \<Rightarrow>
                      if str_includes (page_url page) ''confirm='' \<or>
                         str_includes (page_url page) ''virusScanWarning''
                      then click_for_download page else None)
           in case download of
                Some Throws \<Rightarrow> (None, w)
              | Some (Returns b) \<Rightarrow>
                  if length b > 0 then (Some outputPath, writeFile outputPath b w)
                  else final_goto_attempt page outputPath (writeFile outputPath b w)
              | None \<Rightarrow> final_goto_attempt page outputPath w)"

definition download_plain_image ::
  "env \<Rightarrow> string \<Rightarrow> path \<Rightarrow> world \<Rightarrow> path option \<times> world" where
  "download_plain_image e url outputPath w =
     (case downloadFileDirect e 5 True url outputPath w of
        (True, w1) \<Rightarrow>
          (case stat_size w1 outputPath of
             None \<Rightarrow> playwright_plain e outputPath None w1
           | Some sz \<Rightarrow> if sz > 0 then (Some outputPath, w1) else (None, w1))
      | (False, w1) \<Rightarrow> playwright_plain e outputPath None w1)"

definition downloadImage ::
  "env \<Rightarrow> string \<Rightarrow> path \<Rightarrow> world \<Rightarrow> path option \<times> world" where
  "downloadImage e url outputPath w =
     (if url = [] \<or> trim url = [] then (None, w)
      else case extractGoogleDriveId url of
        Some fileId \<Rightarrow>
          (case direct_unvalidated e False (downloadUrl_of fileId) outputPath w of
             (True, w1) \<Rightarrow> (Some outputPath, w1)
           | (False, w1) \<Rightarrow>
               (case direct_unvalidated e True (viewUrl_of fileId) outputPath w1 of
                  (True, w2) \<Rightarrow> (Some outputPath, w2)
                | (False, w2) \<Rightarrow>
                    (case direct_unvalidated e True (downloadUrl_of fileId) outputPath w2 of
                       (True, w3) \<Rightarrow> (Some outputPath, w3)
                     | (False, w3) \<Rightarrow> playwright_drive_image e outputPath w3)))
      | None \<Rightarrow> download_plain_image e url outputPath w)"

section \<open>The asset loop of \<open>generatePresentation\<close>\<close>

text \<open>An entry of \<open>assetMap\<close>; a field that the entry does not carry is \<open>None\<close>.\<close>

record asset =
  asset_type :: string
  asset_path :: "path option"
  asset_video_url :: "string option"
  insertion_attempted :: "bool option"

text \<open>A call of \<open>downloadVideo\<close> or \<open>downloadImage\<close> with its URL and output path.  The program
  keeps no such record; the model adds it to name the fetches that were attempted.\<close>

datatype fetch = VideoFetch string path | ImageFetch string path

record pipeline =
  world :: world
  assetMap :: "nat \<Rightarrow> asset option"
  fetches :: "fetch list"

text \<open>\<open>(a || b || '').trim()\<close>.\<close>

definition first_url :: "string option \<Rightarrow> string option \<Rightarrow> string" where
  "first_url a b = trim (if or_empty a \<noteq> [] then or_empty a else or_empty b)"

definition videoUrl_of :: "('i, 'z) slide_scheme \<Rightarrow> string" where
  "videoUrl_of slide = first_url (own_video_url slide) (content_video_url slide)"

definition imageUrl_of :: "('i, 'z) slide_scheme \<Rightarrow> string" where
  "imageUrl_of slide = first_url (own_image_url slide) (content_image_url slide)"

text \<open>\<open>path.extname\<close> (POSIX): trailing slashes are ignored; the result is the text from
  the last dot of the last path segment, unless that segment has no dot, has its only dot
  in front, or is \<open>..\<close>.\<close>

definition extname :: "string \<Rightarrow> string" where
  "extname p =
     (let trimmed = rev (dropWhile (\<lambda>c. c = CHR ''/'') (rev p));
          base = rev (takeWhile (\<lambda>c. c \<noteq> CHR ''/'') (rev trimmed));
          ext = CHR ''.'' # rev (takeWhile (\<lambda>c. c \<noteq> CHR ''.'') (rev base))
      in if CHR ''.'' \<notin> set base \<or> length ext = length base \<or> base = ''..'' then [] else ext)"

text \<open>The output path \<open>assetsDir/module_<i><ext>\<close>; the extension comes from the URL's path,
  and is \<open>fallback\<close> when there is none or the URL does not parse.\<close>

definition mediaPath_of :: "string \<Rightarrow> nat \<Rightarrow> string \<Rightarrow> string \<Rightarrow> path" where
  "mediaPath_of assetsDir i url fallback =
     assetsDir @ ''/module_'' @ digits i @
     (case new_URL url of
        None \<Rightarrow> fallback
      | Some urlObj \<Rightarrow> if extname (pathname urlObj) = [] then fallback
                       else extname (pathname urlObj))"

definition video_failed :: "string \<Rightarrow> asset" where
  "video_failed videoUrl =
     \<lparr>asset_type = ''video_failed'', asset_path = None, asset_video_url = Some videoUrl,
      insertion_attempted = None\<rparr>"

text \<open>The part of the loop body for a \<open>module_description\<close> slide; \<open>skipVideoDownload\<close> is the
  setting of the environment variable \<open>SKIP_VIDEO_DOWNLOAD\<close>.  The result is \<open>None\<close> when a
  download does not return.\<close>

definition module_assets ::
  "env \<Rightarrow> bool \<Rightarrow> string \<Rightarrow> nat \<Rightarrow> ('i, 'z) slide_scheme \<Rightarrow> pipeline \<Rightarrow> pipeline option" where
  "module_assets e skipVideoDownload assetsDir i slide st =
     (let videoUrl = videoUrl_of slide;
          imageUrl = imageUrl_of slide
      in if videoUrl \<noteq> [] \<and> \<not> skipVideoDownload then
           (let mediaPath = mediaPath_of assetsDir i videoUrl ''.mp4'' in
            Option.bind (downloadVideo e videoUrl mediaPath (world st)) (\<lambda>(downloadedPath, w1).
              let st1 = st\<lparr>world := w1,
                           fetches := fetches st @ [VideoFetch videoUrl mediaPath]\<rparr>
              in case downloadedPath of
                   Some p \<Rightarrow>
                     if validateFileType (files w1) p ''video''
                     then Some (st1\<lparr>assetMap := (assetMap st1)(i \<mapsto>
                            \<lparr>asset_type = ''video'', asset_path = Some p,
                             asset_video_url = Some videoUrl,
                             insertion_attempted = Some True\<rparr>)\<rparr>)
                     else Some (st1\<lparr>world := unlink p w1,
                                    assetMap := (assetMap st1)(i \<mapsto> video_failed videoUrl)\<rparr>)
                 | None \<Rightarrow>
                     Some (st1\<lparr>assetMap := (assetMap st1)(i \<mapsto> video_failed videoUrl)\<rparr>)))
         else if videoUrl \<noteq> [] \<and> skipVideoDownload then
           Some (st\<lparr>assetMap := (assetMap st)(i \<mapsto> video_failed videoUrl)\<rparr>)
         else if imageUrl \<noteq> [] then
           (let mediaPath = mediaPath_of assetsDir i imageUrl ''.png'' in
            case downloadImage e imageUrl mediaPath (world st) of
              (downloadedPath, w1) \<Rightarrow>
                let st1 = st\<lparr>world := w1,
                             fetches := fetches st @ [ImageFetch imageUrl mediaPath]\<rparr>
                in case downloadedPath of
                     Some p \<Rightarrow>
                       Some (st1\<lparr>assetMap := (assetMap st1)(i \<mapsto>
                              \<lparr>asset_type = ''image'', asset_path = Some p,
                               asset_video_url = None, insertion_attempted = None\<rparr>)\<rparr>)
                   | None \<Rightarrow> Some st1)
         else Some st)"

text \<open>The part of the loop body for a Mermaid diagram: the entry is recorded whether or not
  rendering succeeded.  The temporary source file of the rendering is not modelled.\<close>

definition diagram_assets ::
  "env \<Rightarrow> string \<Rightarrow> nat \<Rightarrow> ('i, 'z) slide_scheme \<Rightarrow> pipeline \<Rightarrow> pipeline" where
  "diagram_assets e assetsDir i slide st =
     (let diagramPath = assetsDir @ ''/diagram_'' @ digits i @ ''.png'';
          w1 = (case render e (or_empty (diagram_code slide)) of
                  None \<Rightarrow> world st
                | Some png \<Rightarrow> writeFile diagramPath png (world st))
      in st\<lparr>world := w1,
            assetMap := (assetMap st)(i \<mapsto>
              \<lparr>asset_type = ''diagram'', asset_path = Some diagramPath,
               asset_video_url = None, insertion_attempted = None\<rparr>)\<rparr>)"

text \<open>The loop body for the slide at index \<open>i\<close>.\<close>

definition slide_assets ::
  "env \<Rightarrow> bool \<Rightarrow> string \<Rightarrow> nat \<Rightarrow> ('i, 'z) slide_scheme \<Rightarrow> pipeline \<Rightarrow> pipeline option" where
  "slide_assets e skipVideoDownload assetsDir i slide st =
     Option.bind
       (if type slide = ''module_description''
        then module_assets e skipVideoDownload assetsDir i slide st else Some st)
       (\<lambda>st1. if type slide = ''diagram'' \<and> diagram_type slide = Some ''mermaid''
               then Some (diagram_assets e assetsDir i slide st1) else Some st1)"

text \<open>The loop \<open>for (let i = 0; i < aggregatedSlides.length; i++)\<close>, from index \<open>i\<close> on.\<close>

fun process_assets ::
  "env \<Rightarrow> bool \<Rightarrow> string \<Rightarrow> nat \<Rightarrow> ('i, 'z) slide_scheme list \<Rightarrow> pipeline \<Rightarrow> pipeline option" where
  "process_assets e skipVideoDownload assetsDir i [] st = Some st"
| "process_assets e skipVideoDownload assetsDir i (slide # rest) st =
     Option.bind (slide_assets e skipVideoDownload assetsDir i slide st)
       (process_assets e skipVideoDownload assetsDir (Suc i) rest)"

section \<open>Example inputs\<close>

definition png_ftyp_buffer :: buffer where
  "png_ftyp_buffer = [CHR 0x89, CHR 0x50, CHR 0x4E, CHR 0x47] @ ''ftypisom''"

definition html_ftyp_buffer :: buffer where
  "html_ftyp_buffer = [CHR 0x00, CHR 0x00, CHR 0x00, CHR 0x18] @ ''ftypisom<HTML>''"


definition demo_slide :: "string \<Rightarrow> string \<Rightarrow> nat \<Rightarrow> item slide" where
  "demo_slide ty ti n =
     \<lparr>type = ty, title = Some ti, date = None,
      content = Some (replicate n \<lparr>text = Some ''x''\<rparr>),
      own_video_url = None, own_image_url = None, content_video_url = None,
      content_image_url = None, splitSlide = None, splitIndex = None, splitTotal = None,
      mergedSections = None, diagram_type = None, diagram_code = None\<rparr>"

text \<open>A file on disk is non-empty.\<close>

definition nonempty_file :: "world \<Rightarrow> path \<Rightarrow> bool" where
  "nonempty_file w p = (case files w p of None \<Rightarrow> False | Some b \<Rightarrow> b \<noteq> [])"

text \<open>Example environments: a page on which nothing happens, a server that answers every
  request with the same markup page, and one that answers every request with a small MP4
  file; the state before any fetch.\<close>

definition quiet_page :: page_script where
  "quiet_page =
     \<lparr>newPage_ok = True, goto_ok = True, first_download = None, retry_download = None,
      page_url = ''about:blank'', regoto = Throws, click = (\<lambda>selector. Returns None),
      form_click = Returns None, final_goto = Throws, plain_goto = Throws\<rparr>"

definition warning_page :: buffer where
  "warning_page = ''<!DOCTYPE html><html><body>Virus scan warning</body></html>''"

definition html_env :: env where
  "html_env =
     \<lparr>net = (\<lambda>n url. Response 200 None (Some ''text/html; charset=utf-8'') warning_page),
      resolve = (\<lambda>loc url. loc), browser = (\<lambda>n. quiet_page),
      render = (\<lambda>code. None)\<rparr>"

definition small_mp4 :: buffer where
  "small_mp4 = [CHR 0x00, CHR 0x00, CHR 0x00, CHR 0x18] @ ''ftypisom''"

definition mp4_env :: env where
  "mp4_env =
     \<lparr>net = (\<lambda>n url. Response 200 None (Some ''video/mp4'') small_mp4),
      resolve = (\<lambda>loc url. loc), browser = (\<lambda>n. quiet_page),
      render = (\<lambda>code. None)\<rparr>"

definition empty_world :: world where
  "empty_world = \<lparr>files = (\<lambda>p. None), requests = [], pages = 0\<rparr>"

text \<open>A server that answers the token URL for \<open>XYZ9\<close> with an MP4 file of 1012 bytes and
  every other request with a warning page that carries the token \<open>abc123\<close>.\<close>

definition token_page :: buffer where
  \<open>token_page =
     ''<!DOCTYPE html><html><a href="/uc?export=download&amp;confirm=abc123&amp;id=XYZ9">Download anyway</a></html>''\<close>

definition big_mp4 :: buffer where
  "big_mp4 = small_mp4 @ replicate 1000 (CHR 0x00)"

definition token_env :: env where
  "token_env =
     \<lparr>net = (\<lambda>n url.
        if url = ''https://drive.google.com/uc?export=download&id=XYZ9&confirm=abc123''
        then Response 200 None (Some ''video/mp4'') big_mp4
        else Response 200 None (Some ''text/html; charset=utf-8'') token_page),
      resolve = (\<lambda>loc url. loc), browser = (\<lambda>n. quiet_page),
      render = (\<lambda>code. None)\<rparr>"

text \<open>A module slide with the given \<open>video_url\<close> and \<open>image_url\<close>, and the pipeline state
  before the asset loop.\<close>

definition module_slide :: "string \<Rightarrow> string \<Rightarrow> item slide" where
  "module_slide v i =
     \<lparr>type = ''module_description'', title = Some ''Helmet detection'', date = None,
      content = None, own_video_url = None, own_image_url = None,
      content_video_url = Some v, content_image_url = Some i,
      splitSlide = None, splitIndex = None, splitTotal = None,
      mergedSections = None, diagram_type = None, diagram_code = None\<rparr>"

definition start_pipeline :: pipeline where
  "start_pipeline = \<lparr>world = empty_world, assetMap = (\<lambda>i. None), fetches = []\<rparr>"

section \<open>Properties of signature validation\<close>

lemma take4_iff:
  "take 4 xs = [a, b, c, d] \<longleftrightarrow>
     4 \<le> length xs \<and> xs ! 0 = a \<and> xs ! 1 = b \<and> xs ! 2 = c \<and> xs ! 3 = d"
proof (cases xs)
  case Nil
  then show ?thesis by simp
next
  case c1: (Cons x1 r1)
  show ?thesis
  proof (cases r1)
    case Nil
    with c1 show ?thesis by simp
  next
    case c2: (Cons x2 r2)
    show ?thesis
    proof (cases r2)
      case Nil
      with c1 c2 show ?thesis by simp
    next
      case c3: (Cons x3 r3)
      show ?thesis
      proof (cases r3)
        case Nil
        with c1 c2 c3 show ?thesis by simp
      next
        case c4: (Cons x4 r4)
        have "take 4 xs = [x1, x2, x3, x4]"
          using c1 c2 c3 c4 by (simp add: numeral_eq_Suc)
        moreover have "xs ! 0 = x1" "xs ! 1 = x2" "xs ! 2 = x3" "xs ! 3 = x4" "4 \<le> length xs"
          using c1 c2 c3 c4 by (simp_all add: numeral_eq_Suc)
        ultimately show ?thesis by simp
      qed
    qed
  qed
qed

lemma byte_at_Some: "byte_at buf i = Some c \<longleftrightarrow> i < length buf \<and> buf ! i = c"
  by (simp add: byte_at_def)

lemma PNG_MAGIC_take:
  "PNG_MAGIC buf \<longleftrightarrow> take 4 buf = [CHR 0x89, CHR 0x50, CHR 0x4E, CHR 0x47]"
  unfolding PNG_MAGIC_def byte_at_Some take4_iff by auto

lemma FTYP_MAGIC_take: "FTYP_MAGIC buf \<longleftrightarrow> take 4 (drop 4 buf) = ''ftyp''"
proof -
  have n: "8 \<le> length buf \<Longrightarrow> drop 4 buf ! 0 = buf ! 4 \<and> drop 4 buf ! 1 = buf ! 5 \<and>
      drop 4 buf ! 2 = buf ! 6 \<and> drop 4 buf ! 3 = buf ! 7"
    by simp
  have l: "4 \<le> length (drop 4 buf) \<longleftrightarrow> 8 \<le> length buf"
    by auto
  show ?thesis
    unfolding FTYP_MAGIC_def byte_at_Some take4_iff l using n by auto
qed

text \<open>
  Claim C6.  A file whose first four bytes are the PNG signature \<open>89 50 4E 47\<close> passes
  validation as an image and fails it as a video.
\<close>

theorem validateFileType_png:
  assumes "fs filePath = Some buffer"
    and "take 4 buffer = [CHR 0x89, CHR 0x50, CHR 0x4E, CHR 0x47]"
  shows "validateFileType fs filePath ''image'' \<and> \<not> validateFileType fs filePath ''video''"
proof -
  from assms(2) have png: "PNG_MAGIC buffer"
    by (simp add: PNG_MAGIC_take)
  from assms(2) have "length (take 4 buffer) = 4"
    by simp
  then have "\<not> length buffer < 4"
    by simp
  with assms(1) png show ?thesis
    by (simp add: validateFileType_def validateBuffer_def)
qed

theorem validateFileType_png_witness:
  "validateFileType (\<lambda>p. Some ([CHR 0x89, CHR 0x50, CHR 0x4E, CHR 0x47] @ ''ftyp'')) ''a.png'' ''image''
   \<and> \<not> validateFileType (\<lambda>p. Some ([CHR 0x89, CHR 0x50, CHR 0x4E, CHR 0x47] @ ''ftyp'')) ''a.png'' ''video''"
  using validateFileType_png
    [of "\<lambda>p. Some ([CHR 0x89, CHR 0x50, CHR 0x4E, CHR 0x47] @ ''ftyp'')" "''a.png''"
        "[CHR 0x89, CHR 0x50, CHR 0x4E, CHR 0x47] @ ''ftyp''"]
  by simp

text \<open>
  Claim C7, as stated: every buffer of at least 4 bytes whose bytes 4 to 7 are \<open>ftyp\<close> passes
  video validation.  It fails for a buffer that also starts with the PNG signature, and for
  one whose first 100 bytes contain an \<open>html\<close> tag: both checks come before the \<open>ftyp\<close> test.
\<close>

theorem validateFileType_ftyp_counterexample:
  "(4 \<le> length png_ftyp_buffer \<and> take 4 (drop 4 png_ftyp_buffer) = ''ftyp'' \<and>
    \<not> validateFileType (\<lambda>p. Some png_ftyp_buffer) ''clip.mp4'' ''video'') \<and>
   (4 \<le> length html_ftyp_buffer \<and> take 4 (drop 4 html_ftyp_buffer) = ''ftyp'' \<and>
    \<not> validateFileType (\<lambda>p. Some html_ftyp_buffer) ''clip.mp4'' ''video'')"
  by (simp add: png_ftyp_buffer_def html_ftyp_buffer_def validateFileType_def
      validateBuffer_def PNG_MAGIC_def byte_at_def toLowerCase_def lower_char_def)

text \<open>
  Claim C7, amended.  A file whose bytes 4 to 7 are \<open>ftyp\<close>, whose first four bytes are not
  the PNG signature and whose first 100 bytes, lower-cased, contain neither \<open><!doctype\<close>
  nor \<open><html\<close>, passes video validation.
\<close>

theorem validateFileType_ftyp:
  assumes "fs filePath = Some buffer"
    and "take 4 (drop 4 buffer) = ''ftyp''"
    and "take 4 buffer \<noteq> [CHR 0x89, CHR 0x50, CHR 0x4E, CHR 0x47]"
    and "\<not> str_includes (toLowerCase (take 100 buffer)) ''<!doctype''"
    and "\<not> str_includes (toLowerCase (take 100 buffer)) ''<html''"
  shows "validateFileType fs filePath ''video''"
proof -
  from assms(2) have ftyp: "FTYP_MAGIC buffer"
    by (simp add: FTYP_MAGIC_take)
  then have len: "\<not> length buffer < 4"
    by (simp add: FTYP_MAGIC_def)
  from assms(3) have png: "\<not> PNG_MAGIC buffer"
    by (simp add: PNG_MAGIC_take)
  have tk: "take (min 100 (length buffer)) buffer = take 100 buffer"
    by (simp add: min_def)
  show ?thesis
    using assms(1,4,5) ftyp len png
    by (simp add: validateFileType_def validateBuffer_def tk)
qed

theorem validateFileType_ftyp_witness:
  "validateFileType (\<lambda>p. Some ([CHR 0x00, CHR 0x00, CHR 0x00, CHR 0x18] @ ''ftypisom''))
     ''clip.mp4'' ''video''"
  using validateFileType_ftyp
    [of "\<lambda>p. Some ([CHR 0x00, CHR 0x00, CHR 0x00, CHR 0x18] @ ''ftypisom'')" "''clip.mp4''"
        "[CHR 0x00, CHR 0x00, CHR 0x00, CHR 0x18] @ ''ftypisom''"]
  by (simp add: toLowerCase_def lower_char_def)

section \<open>Properties of HTML escaping\<close>










section \<open>Properties of identifier extraction\<close>

lemma id_char_not_delim:
  "is_id_char c \<Longrightarrow>
     c \<noteq> CHR ''/'' \<and> c \<noteq> CHR ''#'' \<and> c \<noteq> CHR ''?'' \<and> c \<noteq> CHR ''&'' \<and>
     c \<noteq> CHR ''+'' \<and> c \<noteq> CHR ''='' \<and> c \<noteq> CHR '':'' \<and> c \<noteq> CHR ''%'' \<and>
     \<not> is_c0_or_space c"
  by (auto simp: is_id_char_def is_c0_or_space_def)

lemma takeWhile_id_rest:
  assumes "list_all is_id_char xs" and "rest = [] \<or> \<not> is_id_char (hd rest)"
  shows "takeWhile is_id_char (xs @ rest) = xs"
proof -
  have "takeWhile is_id_char rest = []"
    using assms(2) by (cases rest) simp_all
  with assms(1) show ?thesis
    by (induction xs) simp_all
qed

lemma match_token_no_slash:
  assumes "CHR ''/'' \<notin> set xs"
  shows "match_token ''/file/d/'' xs = None"
  using assms by (induction xs) auto

lemma split_first_absent:
  assumes "d \<notin> set xs"
  shows "split_first d xs = (xs, None)"
  using assms by (induction xs) auto

lemma split_first_append:
  assumes "d \<notin> set xs"
  shows "split_first d (xs @ ys) = (xs @ fst (split_first d ys), snd (split_first d ys))"
  using assms by (induction xs) (auto split: prod.splits)

lemma split_first_subset: "set (fst (split_first d xs)) \<subseteq> set xs"
  by (induction xs) (auto split: prod.splits)

lemma split_on_absent:
  assumes "d \<notin> set xs"
  shows "split_on d xs = [xs]"
  using assms by (induction xs) auto

lemma split_on_append:
  assumes "d \<notin> set xs"
  shows "split_on d (xs @ d # ys) = xs # split_on d ys"
  using assms by (induction xs) auto

lemma id_chars_free:
  assumes "list_all is_id_char xs"
  shows "CHR ''/'' \<notin> set xs \<and> CHR ''#'' \<notin> set xs \<and> CHR ''?'' \<notin> set xs \<and>
         CHR ''&'' \<notin> set xs \<and> CHR ''+'' \<notin> set xs \<and> CHR ''='' \<notin> set xs \<and>
         CHR '':'' \<notin> set xs \<and> CHR ''%'' \<notin> set xs \<and> list_all (\<lambda>c. \<not> is_c0_or_space c) xs"
  using assms id_char_not_delim by (induction xs) auto

lemma percent_decode_id:
  assumes "CHR ''%'' \<notin> set xs"
  shows "percent_decode xs = xs"
  using assms by (induction xs rule: percent_decode.induct) auto

lemma form_decode_id:
  assumes "CHR ''%'' \<notin> set xs" and "CHR ''+'' \<notin> set xs"
  shows "form_decode xs = xs"
proof -
  from assms(2) have "map (\<lambda>c. if c = CHR ''+'' then CHR '' '' else c) xs = xs"
    by (induction xs) auto
  with assms(1) show ?thesis
    by (simp add: form_decode_def percent_decode_id)
qed

lemma clean_url_id:
  assumes "list_all (\<lambda>c. \<not> is_c0_or_space c) xs"
  shows "clean_url xs = xs"
proof -
  have a: "dropWhile is_c0_or_space ys = ys" if "list_all (\<lambda>c. \<not> is_c0_or_space c) ys" for ys
    using that by (cases ys) simp_all
  have b: "filter (\<lambda>c. \<not> is_tab_or_newline c) xs = xs"
    using assms
    by (induction xs) (auto simp: is_tab_or_newline_def is_c0_or_space_def)
  from assms have "list_all (\<lambda>c. \<not> is_c0_or_space c) (rev xs)"
    by (simp add: list_all_iff)
  then show ?thesis
    using assms by (simp add: clean_url_def a b)
qed

text \<open>The query forms of the service's URLs, parsed: \<open>q\<close> is the query and \<open>f\<close> the fragment
  with its \<open>#\<close>, if any.\<close>

lemma new_URL_open:
  assumes "list_all (\<lambda>c. \<not> is_c0_or_space c) (q @ f)" and "CHR ''#'' \<notin> set q"
    and "f = [] \<or> hd f = CHR ''#''"
  shows "new_URL (''https://drive.google.com/open?'' @ q @ f) =
           Some \<lparr>pathname = ''/open'', search = q\<rparr>"
proof -
  have c: "clean_url (''https://drive.google.com/open?'' @ q @ f) =
             ''https://drive.google.com/open?'' @ q @ f"
    using assms(1) by (intro clean_url_id) (simp add: is_c0_or_space_def)
  have e: "fst (split_first CHR ''#'' f) = []"
    using assms(3) by (cases f) auto
  have "CHR ''#'' \<notin> set (''https://drive.google.com/open?'' @ q)"
    using assms(2) by simp
  then have "split_first CHR ''#'' ((''https://drive.google.com/open?'' @ q) @ f) =
      ((''https://drive.google.com/open?'' @ q) @ fst (split_first CHR ''#'' f),
       snd (split_first CHR ''#'' f))"
    by (rule split_first_append)
  then have h: "fst (split_first CHR ''#'' ((''https://drive.google.com/open?'' @ q) @ f)) =
      ''https://drive.google.com/open?'' @ q"
    unfolding e by (simp only: fst_conv append_Nil2)
  have p: "parse_path ''/open'' = ''/open''"
    by code_simp
  show ?thesis
    unfolding new_URL_def c
    using h p
    by (simp add: case_prod_beta is_scheme_def is_special_scheme_def toLowerCase_def
        lower_char_def is_slash_def or_empty_def)
qed

lemma new_URL_uc:
  assumes "list_all (\<lambda>c. \<not> is_c0_or_space c) q" and "CHR ''#'' \<notin> set q"
  shows "new_URL (''https://drive.google.com/uc?'' @ q) = Some \<lparr>pathname = ''/uc'', search = q\<rparr>"
proof -
  have c: "clean_url (''https://drive.google.com/uc?'' @ q) = ''https://drive.google.com/uc?'' @ q"
    using assms(1) by (intro clean_url_id) (simp add: is_c0_or_space_def)
  have "CHR ''#'' \<notin> set (''https://drive.google.com/uc?'' @ q)"
    using assms(2) by simp
  then have h: "split_first CHR ''#'' (''https://drive.google.com/uc?'' @ q) =
      (''https://drive.google.com/uc?'' @ q, None)"
    by (rule split_first_absent)
  have p: "parse_path ''/uc'' = ''/uc''"
    by code_simp
  show ?thesis
    unfolding new_URL_def c h
    using p
    by (simp add: is_scheme_def is_special_scheme_def toLowerCase_def
        lower_char_def is_slash_def or_empty_def)
qed

text \<open>The first parameter of a query that starts with \<open>id=ID\<close>.\<close>

lemma searchParams_get_first:
  assumes "list_all is_id_char ID" and "extra = [] \<or> hd extra = CHR ''&''"
  shows "searchParams_get \<lparr>pathname = p, search = ''id='' @ ID @ extra\<rparr> ''id'' = Some ID"
proof -
  note free = id_chars_free [OF assms(1)]
  have k: "split_first CHR ''='' (''id='' @ ID) = (''id'', Some ID)"
    by simp
  have d: "form_decode ''id'' = ''id''" "form_decode ID = ID"
    using free by (simp_all add: form_decode_id)
  have "\<exists>ws. split_on CHR ''&'' (''id='' @ ID @ extra) = (''id='' @ ID) # ws"
  proof (cases extra)
    case Nil
    have "split_on CHR ''&'' (''id='' @ ID) = [''id='' @ ID]"
      using free by (intro split_on_absent) simp
    with Nil show ?thesis by simp
  next
    case (Cons c cs)
    with assms(2) have "extra = CHR ''&'' # cs" by simp
    moreover have "split_on CHR ''&'' ((''id='' @ ID) @ CHR ''&'' # cs) =
        (''id='' @ ID) # split_on CHR ''&'' cs"
      using free by (intro split_on_append) simp
    ultimately show ?thesis by simp
  qed
  then obtain ws where w: "split_on CHR ''&'' (''id='' @ ID @ extra) = (''id='' @ ID) # ws" ..
  show ?thesis
    unfolding searchParams_get_def URL.select_convs w
    using k d by (simp add: or_empty_def)
qed

lemma extract_path_form:
  assumes "ID \<noteq> []" and "list_all is_id_char ID" and "rest = [] \<or> \<not> is_id_char (hd rest)"
  shows "extractGoogleDriveId (''https://drive.google.com/file/d/'' @ ID @ rest) = Some ID"
proof -
  have "takeWhile is_id_char (ID @ rest) = ID"
    using assms(2,3) by (rule takeWhile_id_rest)
  with assms(1) show ?thesis
    by (simp add: extractGoogleDriveId_def)
qed

lemma extract_query_form:
  assumes "ID \<noteq> []" and "list_all is_id_char ID"
    and "rest = [] \<or> hd rest = CHR ''&'' \<or> hd rest = CHR ''#''"
    and "list_all (\<lambda>c. \<not> is_c0_or_space c \<and> c \<noteq> CHR ''/'') rest"
  shows "extractGoogleDriveId (''https://drive.google.com/open?id='' @ ID @ rest) = Some ID"
proof -
  note free = id_chars_free [OF assms(2)]
  define q where "q = takeWhile (\<lambda>c. c \<noteq> CHR ''#'') rest"
  define f where "f = dropWhile (\<lambda>c. c \<noteq> CHR ''#'') rest"
  have r: "rest = q @ f"
    by (simp add: q_def f_def)
  have fh: "f = [] \<or> hd f = CHR ''#''"
    unfolding f_def using hd_dropWhile [of "\<lambda>c. c \<noteq> CHR ''#''" rest] by auto
  have qh: "q = [] \<or> hd q = CHR ''&''"
    unfolding q_def using assms(3) by (cases rest) auto
  have qn: "CHR ''#'' \<notin> set q"
    unfolding q_def by (auto dest: set_takeWhileD)
  have "CHR ''/'' \<notin> set (ID @ rest)"
    using free assms(4) by (auto simp: list_all_iff)
  then have "match_token ''/file/d/'' (ID @ rest) = None"
    by (rule match_token_no_slash)
  then have m: "match_token ''/file/d/'' (''https://drive.google.com/open?id='' @ ID @ rest) = None"
    by simp
  have "list_all (\<lambda>c. \<not> is_c0_or_space c) ((''id='' @ ID @ q) @ f)"
    using free assms(4) unfolding r by (auto simp: list_all_iff is_c0_or_space_def)
  moreover have "CHR ''#'' \<notin> set (''id='' @ ID @ q)"
    using free qn by simp
  ultimately have "new_URL (''https://drive.google.com/open?'' @ (''id='' @ ID @ q) @ f) =
      Some \<lparr>pathname = ''/open'', search = ''id='' @ ID @ q\<rparr>"
    using fh by (rule new_URL_open)
  then have u: "new_URL (''https://drive.google.com/open?id='' @ ID @ rest) =
      Some \<lparr>pathname = ''/open'', search = ''id='' @ ID @ q\<rparr>"
    unfolding r by simp
  have g: "searchParams_get \<lparr>pathname = ''/open'', search = ''id='' @ ID @ q\<rparr> ''id'' = Some ID"
    using assms(2) qh by (rule searchParams_get_first)
  have i: "str_includes ''/open'' ''open''"
    by code_simp
  show ?thesis
    unfolding extractGoogleDriveId_def m u option.case g URL.select_convs
    using assms(1) i by simp
qed

lemma extract_uc_form:
  assumes "list_all is_id_char ID"
  shows "extractGoogleDriveId (''https://drive.google.com/uc?id='' @ ID) = None"
proof -
  note free = id_chars_free [OF assms]
  have "match_token ''/file/d/'' ID = None"
    using free by (intro match_token_no_slash) simp
  then have m: "match_token ''/file/d/'' (''https://drive.google.com/uc?id='' @ ID) = None"
    by simp
  have "new_URL (''https://drive.google.com/uc?'' @ (''id='' @ ID)) =
      Some \<lparr>pathname = ''/uc'', search = ''id='' @ ID\<rparr>"
    using free by (intro new_URL_uc) (simp_all add: is_c0_or_space_def)
  then have u: "new_URL (''https://drive.google.com/uc?id='' @ ID) =
      Some \<lparr>pathname = ''/uc'', search = ''id='' @ ID\<rparr>"
    by simp
  have i: "\<not> str_includes ''/uc'' ''open''"
    by code_simp
  show ?thesis
    unfolding extractGoogleDriveId_def m u option.case URL.select_convs
    using i by simp
qed

text \<open>
  Claim C5, as stated: the identifier is returned from the path form and from the query
  form alike.  The service's own download URL \<open>/uc?id=ID\<close> presents the identifier in the
  query form \<open>?id=ID\<close>, and extraction returns no identifier from it, while it returns
  \<open>XYZ9\<close> from the path form.
\<close>

theorem query_form_counterexample:
  "extractGoogleDriveId ''https://drive.google.com/file/d/XYZ9/view'' = Some ''XYZ9'' \<and>
   extractGoogleDriveId ''https://drive.google.com/uc?id=XYZ9'' = None"
  by code_simp

text \<open>
  Claim C5, amended.  For every identifier \<open>ID\<close>, a non-empty string of letters, digits,
  hyphens and underscores: extraction returns \<open>ID\<close> from \<open>https://drive.google.com/file/d/ID\<close>
  followed by nothing or by any text that starts outside the identifier alphabet (such as
  \<open>/view\<close> or \<open>/view?usp=sharing\<close>), and it returns the same \<open>ID\<close> from
  \<open>https://drive.google.com/open?id=ID\<close> followed by nothing, by further parameters (\<open>&...\<close>)
  or by a fragment (\<open>#...\<close>) in which there is no slash, space or control character.  The
  query form is recognised on a path that contains \<open>open\<close> only: from
  \<open>https://drive.google.com/uc?id=ID\<close> extraction returns no identifier.
\<close>

theorem extractGoogleDriveId_same_id:
  assumes "ID \<noteq> []" and "list_all is_id_char ID"
    and "rest = [] \<or> \<not> is_id_char (hd rest)"
    and "extra = [] \<or> hd extra = CHR ''&'' \<or> hd extra = CHR ''#''"
    and "list_all (\<lambda>c. \<not> is_c0_or_space c \<and> c \<noteq> CHR ''/'') extra"
  shows "extractGoogleDriveId (''https://drive.google.com/file/d/'' @ ID @ rest) = Some ID \<and>
         extractGoogleDriveId (''https://drive.google.com/open?id='' @ ID @ extra) = Some ID \<and>
         extractGoogleDriveId (''https://drive.google.com/file/d/'' @ ID @ rest) =
         extractGoogleDriveId (''https://drive.google.com/open?id='' @ ID @ extra) \<and>
         extractGoogleDriveId (''https://drive.google.com/uc?id='' @ ID) = None"
proof -
  have a: "extractGoogleDriveId (''https://drive.google.com/file/d/'' @ ID @ rest) = Some ID"
    using assms(1,2,3) by (rule extract_path_form)
  have b: "extractGoogleDriveId (''https://drive.google.com/open?id='' @ ID @ extra) = Some ID"
    using assms(1,2,4,5) by (rule extract_query_form)
  have c: "extractGoogleDriveId (''https://drive.google.com/uc?id='' @ ID) = None"
    using assms(2) by (rule extract_uc_form)
  from a b c show ?thesis by simp
qed

theorem extractGoogleDriveId_same_id_witness:
  "extractGoogleDriveId ''https://drive.google.com/file/d/1aB_-9/view?usp=sharing'' = Some ''1aB_-9'' \<and>
   extractGoogleDriveId ''https://drive.google.com/open?id=1aB_-9&usp=drive_link'' = Some ''1aB_-9'' \<and>
   extractGoogleDriveId ''https://drive.google.com/uc?id=1aB_-9'' = None"
  using extractGoogleDriveId_same_id [of "''1aB_-9''" "''/view?usp=sharing''" "''&usp=drive_link''"]
  by (simp add: is_id_char_def is_c0_or_space_def)

section \<open>Properties of slide aggregation\<close>

lemma slices_cover:
  "concat (map (\<lambda>k. slice xs (k * p) (min (k * p + p) (length xs))) [0..<m]) = take (m * p) xs"
proof (induction m)
  case 0
  show ?case by simp
next
  case (Suc m)
  have "take (m * p) xs @ slice xs (m * p) (min (m * p + p) (length xs)) = take (m * p + p) xs"
  proof (cases "m * p + p \<le> length xs")
    case True
    then show ?thesis
      by (simp add: slice_def min_def take_add)
  next
    case False
    then have "slice xs (m * p) (min (m * p + p) (length xs)) = drop (m * p) xs"
      by (simp add: slice_def min_def)
    moreover from False have "take (m * p + p) xs = xs"
      by simp
    ultimately show ?thesis
      by simp
  qed
  with Suc show ?case
    by (simp add: add.commute)
qed

lemma split_sizes:
  assumes "MAX_ITEMS_PER_SLIDE < n"
  shows "1 < ceil_div n MAX_ITEMS_PER_SLIDE"
    and "ceil_div n (ceil_div n MAX_ITEMS_PER_SLIDE) \<le> MAX_ITEMS_PER_SLIDE"
    and "n \<le> ceil_div n MAX_ITEMS_PER_SLIDE * ceil_div n (ceil_div n MAX_ITEMS_PER_SLIDE)"
proof -
  define m where "m = ceil_div n MAX_ITEMS_PER_SLIDE"
  have m: "m = (n + 14) div 15"
    by (simp add: m_def ceil_div_def MAX_ITEMS_PER_SLIDE_def)
  from assms have n: "15 < n"
    by (simp add: MAX_ITEMS_PER_SLIDE_def)
  from m n have m1: "1 < m" and nm: "n \<le> 15 * m"
    by linarith+
  have "n + m - 1 < 16 * m"
    using nm m1 by linarith
  then have "(n + m - 1) div m < 16"
    using m1 by (simp add: div_less_iff_less_mult mult.commute)
  then have p: "ceil_div n m \<le> 15"
    by (simp add: ceil_div_def)
  have "(n + m - 1) mod m < m"
    using m1 by simp
  moreover have "(n + m - 1) div m * m + (n + m - 1) mod m = n + m - 1"
    by simp
  ultimately have "n \<le> (n + m - 1) div m * m"
    by linarith
  then have c: "n \<le> m * ceil_div n m"
    by (simp add: ceil_div_def mult.commute)
  show "1 < ceil_div n MAX_ITEMS_PER_SLIDE"
    using m1 by (simp add: m_def)
  show "ceil_div n (ceil_div n MAX_ITEMS_PER_SLIDE) \<le> MAX_ITEMS_PER_SLIDE"
    using p by (simp add: m_def MAX_ITEMS_PER_SLIDE_def)
  show "n \<le> ceil_div n MAX_ITEMS_PER_SLIDE * ceil_div n (ceil_div n MAX_ITEMS_PER_SLIDE)"
    using c by (simp add: m_def)
qed

lemma content_items_split_slide:
  "content_items (split_slide slide merged m p k) =
     slice merged (k * p) (min (k * p + p) (length merged))"
  by (simp add: split_slide_def content_items_def Let_def)

lemma title_split_slide:
  "1 < m \<Longrightarrow> title (split_slide slide merged m p k) =
     Some (baseTitle @ '' ('' @ digits (k + 1) @ ''/'' @ digits m @ '')'')"
  by (simp add: split_slide_def Let_def)

lemma length_slice_le: "length (slice xs a (min (a + p) n)) \<le> p"
  by (simp add: slice_def)

lemma aggregate_run_split:
  assumes "MAX_ITEMS_PER_SLIDE < length (mergedContent (filter non_trivial run))"
  shows "aggregate_run slide run =
     map (split_slide slide (mergedContent (filter non_trivial run))
            (ceil_div (length (mergedContent (filter non_trivial run))) MAX_ITEMS_PER_SLIDE)
            (ceil_div (length (mergedContent (filter non_trivial run)))
               (ceil_div (length (mergedContent (filter non_trivial run))) MAX_ITEMS_PER_SLIDE)))
         [0..<ceil_div (length (mergedContent (filter non_trivial run))) MAX_ITEMS_PER_SLIDE]"
proof (cases "filter non_trivial run")
  case Nil
  with assms show ?thesis
    by (simp add: mergedContent_def)
next
  case (Cons first others)
  with assms show ?thesis
    by (simp add: aggregate_run_def Let_def)
qed

lemma aggregate_run_bound:
  assumes "s \<in> set (aggregate_run slide run)"
  shows "length (content_items s) \<le> MAX_ITEMS_PER_SLIDE"
proof (cases "MAX_ITEMS_PER_SLIDE < length (mergedContent (filter non_trivial run))")
  case True
  from assms obtain k where
    "s = split_slide slide (mergedContent (filter non_trivial run))
            (ceil_div (length (mergedContent (filter non_trivial run))) MAX_ITEMS_PER_SLIDE)
            (ceil_div (length (mergedContent (filter non_trivial run)))
               (ceil_div (length (mergedContent (filter non_trivial run))) MAX_ITEMS_PER_SLIDE)) k"
    unfolding aggregate_run_split [OF True] by auto
  then have "length (content_items s) \<le>
       ceil_div (length (mergedContent (filter non_trivial run)))
         (ceil_div (length (mergedContent (filter non_trivial run))) MAX_ITEMS_PER_SLIDE)"
    by (simp add: content_items_split_slide length_slice_le)
  with split_sizes(2) [OF True] show ?thesis
    by linarith
next
  case False
  show ?thesis
  proof (cases "filter non_trivial run")
    case Nil
    with assms show ?thesis
      by (simp add: aggregate_run_def)
  next
    case (Cons first others)
    show ?thesis
    proof (cases others)
      case Nil
      with Cons have "mergedContent (filter non_trivial run) = content_items first"
        by (simp add: mergedContent_def)
      with False have "length (content_items first) \<le> MAX_ITEMS_PER_SLIDE"
        by simp
      with assms Cons Nil False show ?thesis
        by (auto simp: aggregate_run_def Let_def content_items_def split: if_splits)
    next
      case (Cons second more)
      with assms \<open>filter non_trivial run = first # others\<close> False show ?thesis
        by (auto simp: aggregate_run_def Let_def content_items_def split: if_splits)
    qed
  qed
qed

lemma aggregateSlides_bound:
  "s \<in> set (aggregateSlides slides) \<Longrightarrow>
     (\<not> is_system_requirements s \<and> s \<in> set slides) \<or>
     length (content_items s) \<le> MAX_ITEMS_PER_SLIDE"
proof (induction slides rule: aggregateSlides.induct)
  case 1
  then show ?case by simp
next
  case (2 slide rest)
  show ?case
  proof (cases "is_system_requirements slide")
    case True
    with "2.prems" consider
      "s \<in> set (aggregate_run slide (slide # takeWhile is_system_requirements rest))" |
      "s \<in> set (aggregateSlides (dropWhile is_system_requirements rest))"
      by auto
    then show ?thesis
    proof cases
      case 1
      then show ?thesis
        using aggregate_run_bound by blast
    next
      case 2
      with "2.IH"(1) [OF True] have
        "(\<not> is_system_requirements s \<and> s \<in> set (dropWhile is_system_requirements rest)) \<or>
         length (content_items s) \<le> MAX_ITEMS_PER_SLIDE"
        by simp
      then show ?thesis
        using set_dropWhileD by fastforce
    qed
  next
    case False
    with "2.prems" have "s = slide \<or> s \<in> set (aggregateSlides rest)"
      by simp
    then show ?thesis
      using False "2.IH"(2) [OF False] by auto
  qed
qed

lemma filter_not_dropWhile:
  "filter (\<lambda>x. \<not> P x) (dropWhile P xs) = filter (\<lambda>x. \<not> P x) xs"
  by (induction xs) simp_all

lemma aggregateSlides_pass_through:
  "subseq (filter (\<lambda>s. \<not> is_system_requirements s) slides) (aggregateSlides slides)"
proof (induction slides rule: aggregateSlides.induct)
  case 1
  show ?case by simp
next
  case (2 slide rest)
  show ?case
  proof (cases "is_system_requirements slide")
    case True
    from "2.IH"(1) [OF True]
    have "subseq (filter (\<lambda>s. \<not> is_system_requirements s) rest)
            (aggregateSlides (dropWhile is_system_requirements rest))"
      by (simp add: filter_not_dropWhile)
    then have "subseq (filter (\<lambda>s. \<not> is_system_requirements s) rest)
            (aggregate_run slide (slide # takeWhile is_system_requirements rest) @
             aggregateSlides (dropWhile is_system_requirements rest))"
      by (rule list_emb_append2)
    with True show ?thesis
      by simp
  next
    case False
    with "2.IH"(2) [OF False] show ?thesis
      by simp
  qed
qed

lemma dropWhile_keeps_last:
  assumes "xs \<noteq> []" and "\<not> P (last xs)"
  shows "dropWhile P xs \<noteq> [] \<and> last (dropWhile P xs) = last xs"
  using assms by (induction xs) (auto split: if_splits)

lemma aggregateSlides_append:
  assumes "pre = [] \<or> \<not> is_system_requirements (last pre)"
  shows "aggregateSlides (pre @ xs) = aggregateSlides pre @ aggregateSlides xs"
  using assms
proof (induction pre rule: aggregateSlides.induct)
  case 1
  show ?case by simp
next
  case (2 slide rest)
  show ?case
  proof (cases "is_system_requirements slide")
    case True
    with "2.prems" have ne: "rest \<noteq> []" and nl: "\<not> is_system_requirements (last rest)"
      by (auto split: if_splits)
    then have mem: "last rest \<in> set rest"
      by simp
    from mem nl have tw: "takeWhile is_system_requirements (rest @ xs) =
        takeWhile is_system_requirements rest"
      by (rule takeWhile_append1)
    from mem nl have dw: "dropWhile is_system_requirements (rest @ xs) =
        dropWhile is_system_requirements rest @ xs"
      by (rule dropWhile_append1)
    from dropWhile_keeps_last [of rest is_system_requirements, OF ne nl] nl
    have "dropWhile is_system_requirements rest = [] \<or>
        \<not> is_system_requirements (last (dropWhile is_system_requirements rest))"
      by metis
    then have "aggregateSlides (dropWhile is_system_requirements rest @ xs) =
        aggregateSlides (dropWhile is_system_requirements rest) @ aggregateSlides xs"
      by (rule "2.IH"(1) [OF True])
    with True tw dw show ?thesis
      by simp
  next
    case False
    from "2.prems" have "rest = [] \<or> \<not> is_system_requirements (last rest)"
      by (auto split: if_splits)
    with "2.IH"(2) [OF False] have
      "aggregateSlides (rest @ xs) = aggregateSlides rest @ aggregateSlides xs"
      by simp
    with False show ?thesis
      by simp
  qed
qed

lemma aggregateSlides_run:
  assumes "list_all is_system_requirements run"
    and "post = [] \<or> \<not> is_system_requirements (hd post)"
  shows "aggregateSlides (slide # run @ post) =
     (if is_system_requirements slide
      then aggregate_run slide (slide # run) @ aggregateSlides post
      else slide # aggregateSlides (run @ post))"
proof -
  from assms(2) have p: "takeWhile is_system_requirements post = []"
      "dropWhile is_system_requirements post = post"
    by (cases post; simp)+
  from assms(1) have a: "\<And>x. x \<in> set run \<Longrightarrow> is_system_requirements x"
    by (simp add: list_all_iff)
  have "takeWhile is_system_requirements (run @ post) = run"
    using a p(1) by (simp add: takeWhile_append2)
  moreover have "dropWhile is_system_requirements (run @ post) = post"
    using a p(2) by (simp add: dropWhile_append2)
  ultimately show ?thesis
    by simp
qed

text \<open>
  Claim C9.  Every slide that \<open>aggregateSlides\<close> emits is either an input slide that is not
  a System Requirements slide, or has at most 15 content items; the slides that are not
  System Requirements slides appear in the output unchanged and in their original order;
  a maximal run of consecutive System Requirements slides is replaced, in place, by what
  \<open>aggregate_run\<close> emits for it; and when the merged content of the run's non-trivial slides
  has more than 15 items, the emitted slides are the numbered parts \<open>(1/n)\<close> to \<open>(n/n)\<close>, with
  \<open>n\<close> the merged length divided by 15 and rounded up, whose content arrays concatenated in
  order are exactly the merged content.
\<close>

theorem aggregateSlides_paginates:
  "(\<forall>s \<in> set (aggregateSlides slides).
      (\<not> is_system_requirements s \<and> s \<in> set slides) \<or> length (content_items s) \<le> 15) \<and>
   subseq (filter (\<lambda>s. \<not> is_system_requirements s) slides) (aggregateSlides slides) \<and>
   (is_system_requirements slide \<and> list_all is_system_requirements run \<and>
    (pre = [] \<or> \<not> is_system_requirements (last pre)) \<and>
    (post = [] \<or> \<not> is_system_requirements (hd post)) \<longrightarrow>
      aggregateSlides (pre @ slide # run @ post) =
        aggregateSlides pre @ aggregate_run slide (slide # run) @ aggregateSlides post) \<and>
   (15 < length (mergedContent (filter non_trivial systemReqSlides)) \<longrightarrow>
      concat (map content_items (aggregate_run slide systemReqSlides)) =
        mergedContent (filter non_trivial systemReqSlides) \<and>
      map title (aggregate_run slide systemReqSlides) =
        map (\<lambda>k. Some (''System Requirements ('' @ digits (k + 1) @ ''/'' @
                        digits (ceil_div (length (mergedContent (filter non_trivial systemReqSlides))) 15)
                        @ '')''))
          [0..<ceil_div (length (mergedContent (filter non_trivial systemReqSlides))) 15])"
proof -
  have a: "\<forall>s \<in> set (aggregateSlides slides).
      (\<not> is_system_requirements s \<and> s \<in> set slides) \<or> length (content_items s) \<le> 15"
    using aggregateSlides_bound [of _ slides] by (simp add: MAX_ITEMS_PER_SLIDE_def)
  have c: "aggregateSlides (pre @ slide # run @ post) =
        aggregateSlides pre @ aggregate_run slide (slide # run) @ aggregateSlides post"
    if "is_system_requirements slide" "list_all is_system_requirements run"
      "pre = [] \<or> \<not> is_system_requirements (last pre)"
      "post = [] \<or> \<not> is_system_requirements (hd post)"
    using that aggregateSlides_append [of pre "slide # run @ post"]
      aggregateSlides_run [of run post slide] by simp
  have d: "concat (map content_items (aggregate_run slide systemReqSlides)) =
        mergedContent (filter non_trivial systemReqSlides) \<and>
      map title (aggregate_run slide systemReqSlides) =
        map (\<lambda>k. Some (''System Requirements ('' @ digits (k + 1) @ ''/'' @
                        digits (ceil_div (length (mergedContent (filter non_trivial systemReqSlides))) 15)
                        @ '')''))
          [0..<ceil_div (length (mergedContent (filter non_trivial systemReqSlides))) 15]"
    if big: "15 < length (mergedContent (filter non_trivial systemReqSlides))"
  proof -
    define merged where "merged = mergedContent (filter non_trivial systemReqSlides)"
    define m where "m = ceil_div (length merged) MAX_ITEMS_PER_SLIDE"
    define p where "p = ceil_div (length merged) m"
    from big have big': "MAX_ITEMS_PER_SLIDE < length merged"
      by (simp add: merged_def MAX_ITEMS_PER_SLIDE_def)
    have run: "aggregate_run slide systemReqSlides = map (split_slide slide merged m p) [0..<m]"
      using aggregate_run_split [of systemReqSlides slide] big'
      by (simp add: merged_def m_def p_def)
    from split_sizes [OF big'] have m1: "1 < m" and cover: "length merged \<le> m * p"
      by (simp_all add: m_def p_def)
    have "concat (map content_items (aggregate_run slide systemReqSlides)) = take (m * p) merged"
      unfolding run using slices_cover [of merged p m]
      by (simp add: comp_def content_items_split_slide)
    with cover have one: "concat (map content_items (aggregate_run slide systemReqSlides)) = merged"
      by simp
    have two: "map title (aggregate_run slide systemReqSlides) =
        map (\<lambda>k. Some (''System Requirements ('' @ digits (k + 1) @ ''/'' @ digits m @ '')'')) [0..<m]"
      unfolding run using m1 by (simp add: title_split_slide baseTitle_def)
    have "m = ceil_div (length (mergedContent (filter non_trivial systemReqSlides))) 15"
      by (simp add: m_def merged_def MAX_ITEMS_PER_SLIDE_def)
    with one two show ?thesis
      by (simp add: merged_def)
  qed
  from a aggregateSlides_pass_through [of slides] c d show ?thesis
    by blast
qed

theorem aggregateSlides_paginates_witness:
  "map title (aggregateSlides
      [demo_slide ''title'' ''Proposal'' 0,
       demo_slide ''content_bullets'' ''System Requirements: Network'' 9,
       demo_slide ''content_bullets'' ''System Requirements: Camera'' 8,
       demo_slide ''timeline'' ''Plan'' 20]) =
     [Some ''Proposal'', Some ''System Requirements (1/2)'', Some ''System Requirements (2/2)'',
      Some ''Plan''] \<and>
   concat (map content_items (aggregate_run
      (demo_slide ''content_bullets'' ''System Requirements: Network'' 9)
      [demo_slide ''content_bullets'' ''System Requirements: Network'' 9,
       demo_slide ''content_bullets'' ''System Requirements: Camera'' 8])) =
     replicate 17 \<lparr>text = Some ''x''\<rparr>"
proof -
  have nt: "non_trivial (demo_slide ''content_bullets'' ''System Requirements: Network'' 9)"
    "non_trivial (demo_slide ''content_bullets'' ''System Requirements: Camera'' 8)"
    by (simp_all add: non_trivial_def demo_slide_def content_items_def or_empty_def
        toLowerCase_def lower_char_def matches_power_standard_def numeral_eq_Suc)
  have sr: "is_system_requirements (demo_slide ''content_bullets'' ''System Requirements: Network'' 9)"
    "is_system_requirements (demo_slide ''content_bullets'' ''System Requirements: Camera'' 8)"
    "\<not> is_system_requirements (demo_slide ''title'' ''Proposal'' 0)"
    "\<not> is_system_requirements (demo_slide ''timeline'' ''Plan'' 20)"
    by (simp_all add: is_system_requirements_def demo_slide_def)
  have mc: "mergedContent
      [demo_slide ''content_bullets'' ''System Requirements: Network'' 9,
       demo_slide ''content_bullets'' ''System Requirements: Camera'' 8] =
      replicate 17 \<lparr>text = Some ''x''\<rparr>"
    by (simp add: mergedContent_def demo_slide_def content_items_def numeral_eq_Suc)
  have cd: "ceil_div 17 15 = 2"
    by (simp add: ceil_div_def)
  have up: "[0..<2] = [0, Suc 0]"
    by (simp add: numeral_2_eq_2)
  have ti: "title (demo_slide ''title'' ''Proposal'' 0) = Some ''Proposal''"
    "title (demo_slide ''timeline'' ''Plan'' 20) = Some ''Plan''"
    by (simp_all add: demo_slide_def)
  show ?thesis
    using aggregateSlides_paginates
      [of "[demo_slide ''title'' ''Proposal'' 0,
            demo_slide ''content_bullets'' ''System Requirements: Network'' 9,
            demo_slide ''content_bullets'' ''System Requirements: Camera'' 8,
            demo_slide ''timeline'' ''Plan'' 20]"
          "demo_slide ''content_bullets'' ''System Requirements: Network'' 9"
          "[demo_slide ''content_bullets'' ''System Requirements: Camera'' 8]"
          "[demo_slide ''title'' ''Proposal'' 0]"
          "[demo_slide ''timeline'' ''Plan'' 20]"
          "[demo_slide ''content_bullets'' ''System Requirements: Network'' 9,
            demo_slide ''content_bullets'' ''System Requirements: Camera'' 8]"]
    by (simp add: nt sr mc cd ti up)
qed

section \<open>Properties of the fetch workflow\<close>

subsection \<open>A returned path holds a validated file\<close>

lemma direct_attempt_valid:
  assumes "direct_attempt e url outputPath isVideo w = (True, w1)"
  shows "validateFileType (files w1) outputPath (expectedType isVideo)"
  using assms
  by (auto simp: direct_attempt_def split: prod.splits bool.splits option.splits if_splits)

lemma downloadGoogleDriveFile_valid:
  assumes "downloadGoogleDriveFile e fileId outputPath isVideo w = Some (Some p, w')"
  shows "p = outputPath \<and> validateFileType (files w') outputPath (expectedType isVideo)"
proof (cases "direct_attempt e (downloadUrl_of fileId) outputPath isVideo w")
  case (Pair ok w1)
  show ?thesis
  proof (cases ok)
    case True
    with Pair assms direct_attempt_valid [of e _ outputPath isVideo w w1] show ?thesis
      by (simp add: downloadGoogleDriveFile_def)
  next
    case False
    with Pair assms obtain response w2 where
      fr: "fetchResponse e (downloadUrl_of fileId) w1 = Some (response, w2)" and
      rest: "(case response of
              None \<Rightarrow> Some (None, w2)
            | Some (contentType, htmlContent) \<Rightarrow>
                if is_html_response contentType htmlContent then
                  (let (token_ok, w3) =
                     (case match_token ''confirm='' htmlContent of
                        None \<Rightarrow> (False, w2)
                      | Some confirmToken \<Rightarrow>
                          direct_attempt e (tokenUrl_of fileId confirmToken) outputPath isVideo w2)
                   in if token_ok then Some (Some outputPath, w3)
                      else (case direct_attempt e (confirmTUrl_of fileId) outputPath isVideo w3 of
                              (True, w4) \<Rightarrow> Some (Some outputPath, w4)
                            | (False, w4) \<Rightarrow> Some (None, w4)))
                else if length htmlContent > 1000 then
                  (let w3 = writeFile outputPath htmlContent w2 in
                   if validateFileType (files w3) outputPath (expectedType isVideo)
                   then Some (Some outputPath, w3)
                   else Some (None, unlink outputPath w3))
                else Some (None, w2)) = Some (Some p, w')"
      by (auto simp: downloadGoogleDriveFile_def bind_eq_Some_conv)
    from rest obtain contentType htmlContent where r: "response = Some (contentType, htmlContent)"
      by (cases response) auto
    show ?thesis
    proof (cases "is_html_response contentType htmlContent")
      case html: True
      obtain token_ok w3 where tk:
        "(case match_token ''confirm='' htmlContent of
            None \<Rightarrow> (False, w2)
          | Some confirmToken \<Rightarrow>
              direct_attempt e (tokenUrl_of fileId confirmToken) outputPath isVideo w2)
         = (token_ok, w3)"
        by (cases "case match_token ''confirm='' htmlContent of
            None \<Rightarrow> (False, w2)
          | Some confirmToken \<Rightarrow>
              direct_attempt e (tokenUrl_of fileId confirmToken) outputPath isVideo w2") auto
      show ?thesis
      proof (cases token_ok)
        case True
        with tk have "validateFileType (files w3) outputPath (expectedType isVideo)"
          by (auto split: option.splits dest: direct_attempt_valid)
        with rest r html tk True show ?thesis
          by simp
      next
        case False
        with rest r html tk show ?thesis
          by (auto split: prod.splits bool.splits dest: direct_attempt_valid)
      qed
    next
      case False
      with rest r show ?thesis
        by (auto simp: Let_def split: if_splits)
    qed
  qed
qed

lemma save_validated_valid:
  assumes "save_validated d outputPath isVideo w = (Some p, w')"
  shows "p = outputPath \<and> validateFileType (files w') outputPath (expectedType isVideo)"
  using assms
  by (auto simp: save_validated_def Let_def split: outcome.splits if_splits)

lemma regoto_attempt_valid:
  assumes "regoto_attempt page outputPath isVideo w = (True, w1)"
  shows "validateFileType (files w1) outputPath (expectedType isVideo)"
  using assms
  by (auto simp: regoto_attempt_def Let_def
      split: outcome.splits option.splits prod.splits if_splits)

lemma playwright_drive_file_valid:
  assumes "playwright_drive_file e outputPath isVideo w = (Some p, w')"
  shows "p = outputPath \<and> validateFileType (files w') outputPath (expectedType isVideo)"
  using assms
  by (auto simp: playwright_drive_file_def Let_def
      split: option.splits if_splits prod.splits bool.splits
      dest: save_validated_valid regoto_attempt_valid)

lemma playwright_plain_valid:
  assumes "playwright_plain e outputPath (Some ty) w = (Some p, w')"
  shows "p = outputPath \<and> validateFileType (files w') outputPath ty"
  using assms
  by (auto simp: playwright_plain_def Let_def
      split: outcome.splits option.splits if_splits)

lemma download_plain_file_valid:
  assumes "download_plain_file e url outputPath isVideo w = (Some p, w')"
  shows "p = outputPath \<and> validateFileType (files w') outputPath (expectedType isVideo)"
  using assms
  by (auto simp: download_plain_file_def
      split: prod.splits bool.splits option.splits if_splits dest: playwright_plain_valid)

lemma downloadFile_video_valid:
  assumes "downloadFile e url outputPath True w = Some (Some p, w')"
  shows "p = outputPath \<and> validateFileType (files w') outputPath ''video''"
proof (cases "extractGoogleDriveId url")
  case None
  with assms download_plain_file_valid [of e url outputPath True w p w'] show ?thesis
    by (simp add: downloadFile_def expectedType_def split: if_splits)
next
  case (Some fileId)
  with assms obtain result w1 where
    g: "downloadGoogleDriveFile e fileId outputPath True w = Some (result, w1)" and
    rest: "(case result of
              Some q \<Rightarrow> Some (Some q, w1)
            | None \<Rightarrow> Some (playwright_drive_file e outputPath True w1)) = Some (Some p, w')"
    by (fastforce simp: downloadFile_def bind_eq_Some_conv split: if_splits option.splits)
  show ?thesis
  proof (cases result)
    case None
    with rest playwright_drive_file_valid [of e outputPath True w1 p w'] show ?thesis
      by (simp add: expectedType_def)
  next
    case (Some q)
    with rest g downloadGoogleDriveFile_valid [of e fileId outputPath True w p w'] show ?thesis
      by (simp add: expectedType_def)
  qed
qed

subsection \<open>What \<open>downloadImage\<close> returns\<close>

lemma direct_unvalidated_nonempty:
  assumes "direct_unvalidated e follow url outputPath w = (True, w1)"
  shows "nonempty_file w1 outputPath"
  using assms
  by (auto simp: direct_unvalidated_def stat_size_def nonempty_file_def
      split: prod.splits bool.splits option.splits)

lemma final_goto_attempt_nonempty:
  assumes "final_goto_attempt page outputPath w = (Some p, w')"
  shows "p = outputPath \<and> nonempty_file w' outputPath"
  using assms
  by (auto simp: final_goto_attempt_def writeFile_def nonempty_file_def
      split: outcome.splits option.splits prod.splits if_splits)

lemma playwright_drive_image_nonempty:
  assumes "playwright_drive_image e outputPath w = (Some p, w')"
  shows "p = outputPath \<and> nonempty_file w' outputPath"
  using assms
  by (auto simp: playwright_drive_image_def Let_def writeFile_def nonempty_file_def
      split: option.splits outcome.splits if_splits dest: final_goto_attempt_nonempty)

lemma playwright_plain_nonempty:
  assumes "playwright_plain e outputPath None w = (Some p, w')"
  shows "p = outputPath \<and> nonempty_file w' outputPath"
  using assms
  by (auto simp: playwright_plain_def Let_def writeFile_def nonempty_file_def
      split: outcome.splits option.splits if_splits)

lemma download_plain_image_nonempty:
  assumes "download_plain_image e url outputPath w = (Some p, w')"
  shows "p = outputPath \<and> nonempty_file w' outputPath"
  using assms
  by (auto simp: download_plain_image_def stat_size_def nonempty_file_def
      split: prod.splits bool.splits option.splits if_splits
      dest: playwright_plain_nonempty)

lemma downloadImage_nonempty:
  assumes "downloadImage e url outputPath w = (Some p, w')"
  shows "p = outputPath \<and> nonempty_file w' outputPath"
  using assms
  by (auto simp: downloadImage_def
      split: if_splits option.splits prod.splits bool.splits
      dest: direct_unvalidated_nonempty playwright_drive_image_nonempty
        download_plain_image_nonempty)

subsection \<open>Evaluating the workflow on the example environments\<close>

lemma plain_url_no_id:
  "extractGoogleDriveId ''https://other-host.example/clip.mp4'' = None"
  "extractGoogleDriveId ''https://service/uc?id=XYZ9'' = None"
  "extractGoogleDriveId ''https://other-host.example/logo.png'' = None"
  by code_simp+

lemma plain_url_not_blank:
  "trim ''https://other-host.example/clip.mp4'' \<noteq> []"
  "trim ''https://service/uc?id=XYZ9'' \<noteq> []"
  "trim ''https://other-host.example/logo.png'' \<noteq> []"
  by (simp_all add: trim_def is_space_def)

lemma warning_page_invalid:
  "\<not> validateFileType ((\<lambda>p. None)(outputPath \<mapsto> warning_page)) outputPath ''video''"
  "\<not> validateFileType ((\<lambda>p. None)(outputPath \<mapsto> warning_page)) outputPath ''image''"
  by (simp_all add: validateFileType_def validateBuffer_def warning_page_def PNG_MAGIC_def
      JPEG_MAGIC_def GIF_MAGIC_def byte_at_def toLowerCase_def lower_char_def)

lemma small_mp4_valid:
  "validateFileType ((\<lambda>p. None)(outputPath \<mapsto> small_mp4)) outputPath ''video''"
  by (simp add: validateFileType_def validateBuffer_def small_mp4_def PNG_MAGIC_def
      FTYP_MAGIC_def byte_at_def toLowerCase_def lower_char_def)

lemma direct_html:
  "downloadFileDirect html_env 5 True url outputPath empty_world =
     (True, \<lparr>files = (\<lambda>p. None)(outputPath \<mapsto> warning_page), requests = [url], pages = 0\<rparr>)"
  by (simp add: numeral_eq_Suc request_def html_env_def empty_world_def is_redirect_def
      writeFile_def)

lemma direct_mp4:
  "downloadFileDirect mp4_env 5 True url outputPath empty_world =
     (True, \<lparr>files = (\<lambda>p. None)(outputPath \<mapsto> small_mp4), requests = [url], pages = 0\<rparr>)"
  by (simp add: numeral_eq_Suc request_def mp4_env_def empty_world_def is_redirect_def
      writeFile_def)

lemma downloadFile_html_plain:
  "downloadFile html_env ''https://service/uc?id=XYZ9'' ''assets/module_0.mp4'' True empty_world =
     Some (None, \<lparr>files = (\<lambda>p. None)(''assets/module_0.mp4'' \<mapsto> warning_page),
                  requests = [''https://service/uc?id=XYZ9''], pages = 0\<rparr>)"
  unfolding downloadFile_def download_plain_file_def plain_url_no_id direct_html
  using plain_url_not_blank(2) warning_page_invalid(1) [of "''assets/module_0.mp4''"]
  by (simp add: stat_size_def expectedType_def)

lemma downloadFile_mp4_plain:
  "downloadFile mp4_env ''https://other-host.example/clip.mp4'' ''assets/module_0.mp4'' True
     empty_world =
     Some (Some ''assets/module_0.mp4'',
           \<lparr>files = (\<lambda>p. None)(''assets/module_0.mp4'' \<mapsto> small_mp4),
            requests = [''https://other-host.example/clip.mp4''], pages = 0\<rparr>)"
  unfolding downloadFile_def download_plain_file_def plain_url_no_id direct_mp4
  using plain_url_not_blank(1) small_mp4_valid [of "''assets/module_0.mp4''"]
  by (simp add: stat_size_def expectedType_def small_mp4_def)

lemma downloadImage_html_plain:
  "downloadImage html_env ''https://other-host.example/logo.png'' ''assets/module_0.png''
     empty_world =
     (Some ''assets/module_0.png'',
      \<lparr>files = (\<lambda>p. None)(''assets/module_0.png'' \<mapsto> warning_page),
       requests = [''https://other-host.example/logo.png''], pages = 0\<rparr>)"
  unfolding downloadImage_def download_plain_image_def plain_url_no_id direct_html
  using plain_url_not_blank(3)
  by (simp add: stat_size_def warning_page_def)

subsection \<open>Claims about what a fetch returns and leaves behind\<close>

lemma downloadFile_image_html_plain:
  "downloadFile html_env ''https://other-host.example/logo.png'' ''assets/module_0.png'' False
     empty_world =
   Some (None, \<lparr>files = (\<lambda>p. None)(''assets/module_0.png'' \<mapsto> warning_page),
                requests = [''https://other-host.example/logo.png''], pages = 0\<rparr>)"
  unfolding downloadFile_def download_plain_file_def plain_url_no_id direct_html
  using plain_url_not_blank(3) warning_page_invalid(2) [of "''assets/module_0.png''"]
  by (simp add: stat_size_def expectedType_def)

text \<open>
  Claim C1 at a failing input: the image reference \<open>https://other-host.example/logo.png\<close>, a
  URL without identifier whose direct fetch delivers a 59-byte markup page.  \<open>downloadImage\<close>
  reports success: it returns the output path although the file there fails image
  validation and has fewer than 1000 bytes.  \<open>downloadFile\<close>, called for an image on the same
  input, validates the file and returns \<open>null\<close>.
\<close>

theorem downloadImage_returns_unvalidated:
  "fst (downloadImage html_env ''https://other-host.example/logo.png'' ''assets/module_0.png''
          empty_world) = Some ''assets/module_0.png'' \<and>
   files (snd (downloadImage html_env ''https://other-host.example/logo.png''
          ''assets/module_0.png'' empty_world)) ''assets/module_0.png'' = Some warning_page \<and>
   \<not> validateFileType
       (files (snd (downloadImage html_env ''https://other-host.example/logo.png''
          ''assets/module_0.png'' empty_world))) ''assets/module_0.png'' ''image'' \<and>
   length warning_page = 59 \<and>
   map_option fst (downloadFile html_env ''https://other-host.example/logo.png''
      ''assets/module_0.png'' False empty_world) = Some None"
  unfolding downloadImage_html_plain downloadFile_image_html_plain
  using warning_page_invalid(2) [of "''assets/module_0.png''"]
  by (simp add: warning_page_def)

text \<open>
  Claim C2 at the scenario of the specification: the reference \<open>https://service/uc?id=XYZ9\<close>
  of kind video, every request answered with a markup page.  The URL has no recognised
  identifier (its path does not contain \<open>open\<close>), the direct fetch writes the page, the page
  fails validation, and \<open>downloadFile\<close> returns \<open>null\<close> with the page still at the output path.
\<close>

theorem downloadFile_leaves_invalid_file:
  "extractGoogleDriveId ''https://service/uc?id=XYZ9'' = None \<and>
   map_option fst (downloadFile html_env ''https://service/uc?id=XYZ9'' ''assets/module_0.mp4''
      True empty_world) = Some None \<and>
   map_option (\<lambda>r. files (snd r) ''assets/module_0.mp4'')
     (downloadFile html_env ''https://service/uc?id=XYZ9'' ''assets/module_0.mp4'' True
        empty_world) = Some (Some warning_page) \<and>
   \<not> validateFileType ((\<lambda>p. None)(''assets/module_0.mp4'' \<mapsto> warning_page))
       ''assets/module_0.mp4'' ''video''"
  unfolding downloadFile_html_plain
  using plain_url_no_id(2) warning_page_invalid(1) [of "''assets/module_0.mp4''"]
  by simp

subsection \<open>Blank URLs\<close>

lemma blank_trim:
  assumes "list_all is_space url"
  shows "trim url = []"
  using assms by (auto simp: trim_def list_all_iff dest: set_dropWhileD)

text \<open>
  Claim C8.  For a source URL that is empty or consists of white space only, \<open>downloadFile\<close>
  (for either kind) and \<open>downloadImage\<close> return \<open>null\<close> at once: the state is unchanged, so
  no request was made, no page was opened and no file was written.
\<close>

theorem blank_url_skipped:
  assumes "list_all is_space url"
  shows "downloadFile e url outputPath isVideo w = Some (None, w) \<and>
         downloadImage e url outputPath w = (None, w)"
  using blank_trim [OF assms]
  by (simp add: downloadFile_def downloadImage_def)

theorem blank_url_skipped_witness:
  "downloadFile html_env [] ''assets/module_0.mp4'' True empty_world = Some (None, empty_world) \<and>
   downloadFile html_env ''   '' ''assets/module_0.mp4'' True empty_world = Some (None, empty_world) \<and>
   downloadImage html_env ''   '' ''assets/module_0.png'' empty_world = (None, empty_world)"
  using blank_url_skipped [of "[]" html_env "''assets/module_0.mp4''" True empty_world]
    blank_url_skipped [of "''   ''" html_env "''assets/module_0.mp4''" True empty_world]
    blank_url_skipped [of "''   ''" html_env "''assets/module_0.png''" False empty_world]
  by (simp add: is_space_def)

subsection \<open>The order of the requests\<close>

lemma downloadFileDirect_log:
  "\<exists>rs. requests (snd (downloadFileDirect e n follow url outputPath w)) = requests w @ rs"
proof (induction n arbitrary: follow url w)
  case 0
  show ?case by simp
next
  case (Suc n)
  show ?case
  proof (cases "net e (length (requests w)) url")
    case NetworkError
    then show ?thesis by (simp add: request_def)
  next
    case (Stalled b)
    then show ?thesis by (simp add: request_def writeFile_def)
  next
    case (Response st loc ct b)
    show ?thesis
    proof (cases "follow \<and> is_redirect st loc")
      case True
      from Suc [of True "redirectUrl e loc url" "w\<lparr>requests := requests w @ [url]\<rparr>"]
      obtain rs where
        "requests (snd (downloadFileDirect e n True (redirectUrl e loc url) outputPath
           (w\<lparr>requests := requests w @ [url]\<rparr>))) = requests w @ [url] @ rs"
        by auto
      with Response True show ?thesis
        by (simp add: request_def)
    next
      case False
      with Response show ?thesis
        by (auto simp: request_def writeFile_def)
    qed
  qed
qed

lemma downloadFileDirect_first:
  "\<exists>rs. requests (snd (downloadFileDirect e (Suc n) follow url outputPath w)) =
     requests w @ url # rs"
proof (cases "net e (length (requests w)) url")
  case NetworkError
  then show ?thesis by (simp add: request_def)
next
  case (Stalled b)
  then show ?thesis by (simp add: request_def writeFile_def)
next
  case (Response st loc ct b)
  show ?thesis
  proof (cases "follow \<and> is_redirect st loc")
    case True
    from downloadFileDirect_log
      [of e n True "redirectUrl e loc url" outputPath "w\<lparr>requests := requests w @ [url]\<rparr>"]
    obtain rs where
      "requests (snd (downloadFileDirect e n True (redirectUrl e loc url) outputPath
         (w\<lparr>requests := requests w @ [url]\<rparr>))) = requests w @ [url] @ rs"
      by auto
    with Response True show ?thesis
      by (simp add: request_def)
  next
    case False
    with Response show ?thesis
      by (auto simp: request_def writeFile_def)
  qed
qed

lemma direct_attempt_first:
  "\<exists>rs. requests (snd (direct_attempt e url outputPath isVideo w)) = requests w @ url # rs"
proof -
  obtain ok w1 where d: "downloadFileDirect e 5 True url outputPath w = (ok, w1)"
    by (cases "downloadFileDirect e 5 True url outputPath w") auto
  from downloadFileDirect_first [of e 4 True url outputPath w] d
  obtain rs where "requests w1 = requests w @ url # rs"
    by (auto simp: numeral_eq_Suc)
  with d show ?thesis
    by (auto simp: direct_attempt_def unlink_def split: bool.splits option.splits)
qed

lemma view_attempt_log:
  "\<exists>rs. requests (snd (view_attempt e fileId outputPath w)) = requests w @ rs"
proof -
  obtain ok w1 where d:
    "downloadFileDirect e 5 True (viewUrl_of fileId) outputPath w = (ok, w1)"
    by (cases "downloadFileDirect e 5 True (viewUrl_of fileId) outputPath w") auto
  from downloadFileDirect_log [of e 5 True "viewUrl_of fileId" outputPath w] d
  obtain rs where "requests w1 = requests w @ rs"
    by auto
  with d show ?thesis
    by (auto simp: view_attempt_def unlink_def split: bool.splits option.splits)
qed

lemma save_validated_log: "requests (snd (save_validated d outputPath isVideo w)) = requests w"
  by (simp add: save_validated_def Let_def writeFile_def unlink_def split: outcome.splits)

lemma regoto_attempt_log: "requests (snd (regoto_attempt page outputPath isVideo w)) = requests w"
  by (simp add: regoto_attempt_def Let_def writeFile_def unlink_def
      split: outcome.splits option.splits prod.splits)

lemma playwright_drive_file_log:
  "requests (snd (playwright_drive_file e outputPath isVideo w)) = requests w"
proof -
  have a: "requests (snd (case x of (True, w1) \<Rightarrow> (Some outputPath, w1)
                       | (False, w1) \<Rightarrow>
                           (case dl of Some d \<Rightarrow> save_validated d outputPath isVideo w1
                            | None \<Rightarrow> (None, w1)))) = requests (snd x)" for x dl
    by (cases x) (simp add: save_validated_log split: bool.splits option.splits)
  show ?thesis
    unfolding playwright_drive_file_def Let_def
    by (simp add: a save_validated_log regoto_attempt_log split: option.splits)
qed

text \<open>The state after the first two requests of \<open>downloadGoogleDriveFile\<close> when both are
  answered with the page \<open>b\<close> and \<open>b\<close> is not a valid file: the page was written, and deleted
  if it has more than 1000 bytes.\<close>

lemma canonical_download_markup:
  assumes r0: "net e (length (requests w)) (downloadUrl_of fileId) = Response 200 loc ct b"
    and inv: "\<not> validateBuffer b (expectedType isVideo)"
  shows "direct_attempt e (downloadUrl_of fileId) outputPath isVideo w =
     (False,
      (if 1000 < length b then unlink outputPath (writeFile outputPath b w)
       else writeFile outputPath b w)\<lparr>requests := requests w @ [downloadUrl_of fileId]\<rparr>)"
proof -
  have d: "downloadFileDirect e 5 True (downloadUrl_of fileId) outputPath w =
      (True, writeFile outputPath b (w\<lparr>requests := requests w @ [downloadUrl_of fileId]\<rparr>))"
    using r0 by (simp add: numeral_eq_Suc request_def is_redirect_def)
  have v: "\<not> validateFileType ((files w)(outputPath \<mapsto> b)) outputPath (expectedType isVideo)"
    using inv by (simp add: validateFileType_def)
  show ?thesis
    using v by (simp add: direct_attempt_def d stat_size_def writeFile_def unlink_def)
qed

lemma fetchResponse_immediate:
  assumes "net e (length (requests w)) url = Response 200 loc ct b"
  shows "fetchResponse e url w = Some (Some (ct, b), w\<lparr>requests := requests w @ [url]\<rparr>)"
  using assms by (subst fetchResponse.simps) (simp add: request_def is_redirect_def)

text \<open>The example server with the token page, evaluated.\<close>

lemma token_example_url:
  "extractGoogleDriveId ''https://drive.google.com/file/d/XYZ9/view'' = Some ''XYZ9''"
  "trim ''https://drive.google.com/file/d/XYZ9/view'' \<noteq> []"
  by (simp_all add: extractGoogleDriveId_def is_id_char_def trim_def is_space_def)

lemma token_example_net:
  "net token_env n (downloadUrl_of ''XYZ9'') =
     Response 200 None (Some ''text/html; charset=utf-8'') token_page"
  "net token_env n (tokenUrl_of ''XYZ9'' ''abc123'') = Response 200 None (Some ''video/mp4'') big_mp4"
  by (simp_all add: token_env_def downloadUrl_of_def tokenUrl_of_def)

lemma token_example_page:
  "is_html_response (Some ''text/html; charset=utf-8'') token_page"
  "match_token ''confirm='' token_page = Some ''abc123''"
  "\<not> validateBuffer token_page (expectedType True)"
  "\<not> 1000 < length token_page"
  by (simp_all add: is_html_response_def or_empty_def toLowerCase_def lower_char_def
      token_page_def is_id_char_def validateBuffer_def expectedType_def PNG_MAGIC_def byte_at_def)

lemma big_mp4_valid:
  "validateFileType (fs(outputPath \<mapsto> big_mp4)) outputPath ''video''"
  "length big_mp4 = 1012"
  by (simp_all add: validateFileType_def validateBuffer_def big_mp4_def small_mp4_def
      PNG_MAGIC_def FTYP_MAGIC_def byte_at_def toLowerCase_def lower_char_def numeral_eq_Suc)

lemma token_example_attempt:
  "direct_attempt token_env (tokenUrl_of ''XYZ9'' ''abc123'') ''assets/module_0.mp4'' True
     \<lparr>files = (\<lambda>p. None)(''assets/module_0.mp4'' \<mapsto> token_page),
      requests = [downloadUrl_of ''XYZ9'', downloadUrl_of ''XYZ9''], pages = 0\<rparr> =
   (True,
    \<lparr>files = (\<lambda>p. None)(''assets/module_0.mp4'' \<mapsto> big_mp4),
     requests = [downloadUrl_of ''XYZ9'', downloadUrl_of ''XYZ9'',
                 tokenUrl_of ''XYZ9'' ''abc123''], pages = 0\<rparr>)"
proof -
  have d: "downloadFileDirect token_env 5 True (tokenUrl_of ''XYZ9'' ''abc123'')
      ''assets/module_0.mp4''
      \<lparr>files = (\<lambda>p. None)(''assets/module_0.mp4'' \<mapsto> token_page),
       requests = [downloadUrl_of ''XYZ9'', downloadUrl_of ''XYZ9''], pages = 0\<rparr> =
     (True,
      \<lparr>files = (\<lambda>p. None)(''assets/module_0.mp4'' \<mapsto> big_mp4),
       requests = [downloadUrl_of ''XYZ9'', downloadUrl_of ''XYZ9'',
                   tokenUrl_of ''XYZ9'' ''abc123''], pages = 0\<rparr>)"
    by (simp add: numeral_eq_Suc request_def token_example_net is_redirect_def
        writeFile_def)
  show ?thesis
    using big_mp4_valid(1) [of "\<lambda>p. None" "''assets/module_0.mp4''"]
    by (simp add: direct_attempt_def d stat_size_def expectedType_def big_mp4_valid(2))
qed

lemma token_example_run:
  "downloadFile token_env ''https://drive.google.com/file/d/XYZ9/view'' ''assets/module_0.mp4''
     True empty_world =
   Some (Some ''assets/module_0.mp4'',
     \<lparr>files = (\<lambda>p. None)(''assets/module_0.mp4'' \<mapsto> big_mp4),
      requests = [downloadUrl_of ''XYZ9'', downloadUrl_of ''XYZ9'',
                  tokenUrl_of ''XYZ9'' ''abc123''], pages = 0\<rparr>)"
proof -
  have s1: "direct_attempt token_env (downloadUrl_of ''XYZ9'') ''assets/module_0.mp4'' True
      empty_world =
      (False, \<lparr>files = (\<lambda>p. None)(''assets/module_0.mp4'' \<mapsto> token_page),
               requests = [downloadUrl_of ''XYZ9''], pages = 0\<rparr>)"
    using canonical_download_markup [where w = empty_world and isVideo = True,
        OF token_example_net(1) token_example_page(3)] token_example_page(4)
    by (simp add: empty_world_def writeFile_def)
  have s2: "fetchResponse token_env (downloadUrl_of ''XYZ9'')
      \<lparr>files = (\<lambda>p. None)(''assets/module_0.mp4'' \<mapsto> token_page),
       requests = [downloadUrl_of ''XYZ9''], pages = 0\<rparr> =
      Some (Some (Some ''text/html; charset=utf-8'', token_page),
        \<lparr>files = (\<lambda>p. None)(''assets/module_0.mp4'' \<mapsto> token_page),
         requests = [downloadUrl_of ''XYZ9'', downloadUrl_of ''XYZ9''], pages = 0\<rparr>)"
    using fetchResponse_immediate [OF token_example_net(1)] by simp
  have g: "downloadGoogleDriveFile token_env ''XYZ9'' ''assets/module_0.mp4'' True empty_world =
      Some (Some ''assets/module_0.mp4'',
        \<lparr>files = (\<lambda>p. None)(''assets/module_0.mp4'' \<mapsto> big_mp4),
         requests = [downloadUrl_of ''XYZ9'', downloadUrl_of ''XYZ9'',
                     tokenUrl_of ''XYZ9'' ''abc123''], pages = 0\<rparr>)"
    by (simp add: downloadGoogleDriveFile_def s1 s2 token_example_page(1,2)
        token_example_attempt)
  from token_example_url show ?thesis
    by (simp add: downloadFile_def g)
qed

text \<open>
  Claim C3, as stated: after the token attempt the blind \<open>confirm=t\<close> retry is attempted
  whether or not the token attempt succeeded.  Here the canonical download returns a markup
  page with \<open>confirm=abc123\<close> and the token URL returns a valid MP4 file: \<open>downloadFile\<close>
  returns that file after three requests, none of which is the \<open>confirm=t\<close> URL.
\<close>

theorem blind_retry_counterexample:
  "net token_env 0 ''https://drive.google.com/uc?export=download&id=XYZ9'' =
     Response 200 None (Some ''text/html; charset=utf-8'') token_page \<and>
   match_token ''confirm='' token_page = Some ''abc123'' \<and>
   map_option fst (downloadFile token_env ''https://drive.google.com/file/d/XYZ9/view''
      ''assets/module_0.mp4'' True empty_world) = Some (Some ''assets/module_0.mp4'') \<and>
   map_option (requests \<circ> snd) (downloadFile token_env ''https://drive.google.com/file/d/XYZ9/view''
      ''assets/module_0.mp4'' True empty_world) =
     Some [''https://drive.google.com/uc?export=download&id=XYZ9'',
           ''https://drive.google.com/uc?export=download&id=XYZ9'',
           ''https://drive.google.com/uc?export=download&id=XYZ9&confirm=abc123''] \<and>
   ''https://drive.google.com/uc?export=download&id=XYZ9&confirm=t'' \<notin> set
     [''https://drive.google.com/uc?export=download&id=XYZ9'',
      ''https://drive.google.com/uc?export=download&id=XYZ9'',
      ''https://drive.google.com/uc?export=download&id=XYZ9&confirm=abc123'']"
  using token_example_run token_example_net(1) [of 0] token_example_page(2)
  by (simp add: downloadUrl_of_def tokenUrl_of_def)

text \<open>
  Claim C3, amended.  Let the source URL have a recognised identifier, and let the canonical
  download URL be answered directly (status 200), on the download and on the following
  \<open>fetchResponse\<close>, by a markup page that is not a valid file of the requested kind and in
  which the first \<open>confirm=\<close> token is \<open>confirmToken\<close>.  Then the first three requests of
  \<open>downloadFile\<close> are the download URL, the download URL again, and the download URL with
  \<open>&confirm=confirmToken\<close> appended.  If the token attempt yields a valid file, \<open>downloadFile\<close>
  returns it at once, without a blind retry; otherwise the next request after the token
  attempt is the download URL with \<open>&confirm=t\<close> appended.
\<close>

theorem token_before_blind_retry:
  assumes "extractGoogleDriveId url = Some fileId"
    and "trim url \<noteq> []"
    and "net e (length (requests w)) (downloadUrl_of fileId) = Response 200 loc ct b"
    and "net e (Suc (length (requests w))) (downloadUrl_of fileId) = Response 200 loc ct b"
    and "is_html_response ct b"
    and "match_token ''confirm='' b = Some confirmToken"
    and "\<not> validateBuffer b (expectedType isVideo)"
    and "w2 = (if 1000 < length b then unlink outputPath (writeFile outputPath b w)
               else writeFile outputPath b w)
              \<lparr>requests := requests w @ [downloadUrl_of fileId, downloadUrl_of fileId]\<rparr>"
    and "direct_attempt e (tokenUrl_of fileId confirmToken) outputPath isVideo w2 = (ok, w3)"
  shows "(\<exists>rs. requests w3 =
            requests w @ [downloadUrl_of fileId, downloadUrl_of fileId,
                          tokenUrl_of fileId confirmToken] @ rs) \<and>
         (ok \<longrightarrow> downloadFile e url outputPath isVideo w = Some (Some outputPath, w3)) \<and>
         (\<not> ok \<longrightarrow> (\<exists>r w' rs. downloadFile e url outputPath isVideo w = Some (r, w') \<and>
                    requests w' = requests w3 @ confirmTUrl_of fileId # rs))"
proof -
  note id = assms(1) and nb = assms(2) and r0 = assms(3) and r1 = assms(4)
    and html = assms(5) and tok = assms(6) and inv = assms(7) and w2 = assms(8)
    and att = assms(9)
  define w1 where "w1 = (if 1000 < length b then unlink outputPath (writeFile outputPath b w)
       else writeFile outputPath b w)\<lparr>requests := requests w @ [downloadUrl_of fileId]\<rparr>"
  have l1: "requests w1 = requests w @ [downloadUrl_of fileId]"
    by (simp add: w1_def)
  have s1: "direct_attempt e (downloadUrl_of fileId) outputPath isVideo w = (False, w1)"
    unfolding w1_def by (rule canonical_download_markup [OF r0 inv])
  have w12: "w1\<lparr>requests := requests w1 @ [downloadUrl_of fileId]\<rparr> = w2"
    by (simp add: w1_def w2 unlink_def writeFile_def)
  have s2: "fetchResponse e (downloadUrl_of fileId) w1 = Some (Some (ct, b), w2)"
    using fetchResponse_immediate [of e w1 "downloadUrl_of fileId" loc ct b] r1 l1 w12
    by simp
  have g: "downloadGoogleDriveFile e fileId outputPath isVideo w =
      (if ok then Some (Some outputPath, w3)
       else (case direct_attempt e (confirmTUrl_of fileId) outputPath isVideo w3 of
               (True, w4) \<Rightarrow> Some (Some outputPath, w4)
             | (False, w4) \<Rightarrow> Some (None, w4)))"
    using html tok att by (simp add: downloadGoogleDriveFile_def s1 s2)
  from direct_attempt_first [of e "tokenUrl_of fileId confirmToken" outputPath isVideo w2] att
  obtain rs where "requests w3 = requests w2 @ tokenUrl_of fileId confirmToken # rs"
    by auto
  then have first: "\<exists>rs. requests w3 =
            requests w @ [downloadUrl_of fileId, downloadUrl_of fileId,
                          tokenUrl_of fileId confirmToken] @ rs"
    by (simp add: w2)
  from nb have ne: "url \<noteq> []"
    by (auto simp: trim_def)
  have yes: "downloadFile e url outputPath isVideo w = Some (Some outputPath, w3)" if ok
    using that id nb ne g by (simp add: downloadFile_def)
  have no: "\<exists>r w' rs. downloadFile e url outputPath isVideo w = Some (r, w') \<and>
                    requests w' = requests w3 @ confirmTUrl_of fileId # rs" if "\<not> ok"
  proof -
    obtain ok4 w4 where a4:
      "direct_attempt e (confirmTUrl_of fileId) outputPath isVideo w3 = (ok4, w4)"
      by (cases "direct_attempt e (confirmTUrl_of fileId) outputPath isVideo w3") auto
    from direct_attempt_first [of e "confirmTUrl_of fileId" outputPath isVideo w3] a4
    obtain rs4 where l4: "requests w4 = requests w3 @ confirmTUrl_of fileId # rs4"
      by auto
    show ?thesis
    proof (cases ok4)
      case True
      with that a4 g id nb ne have
        "downloadFile e url outputPath isVideo w = Some (Some outputPath, w4)"
        by (simp add: downloadFile_def)
      with l4 show ?thesis by blast
    next
      case False
      obtain ok5 w5 where a5:
        "(if \<not> isVideo then view_attempt e fileId outputPath w4 else (False, w4)) = (ok5, w5)"
        by (cases "if \<not> isVideo then view_attempt e fileId outputPath w4 else (False, w4)") auto
      from view_attempt_log [of e fileId outputPath w4] a5
      obtain rs5 where l5: "requests w5 = requests w4 @ rs5"
        by (cases isVideo) auto
      have df: "downloadFile e url outputPath isVideo w =
          (if ok5 then Some (Some outputPath, w5)
           else Some (playwright_drive_file e outputPath isVideo w5))"
        using that a4 False g id nb ne a5 by (simp add: downloadFile_def)
      show ?thesis
      proof (cases ok5)
        case True
        with df l4 l5 show ?thesis by simp
      next
        case False
        obtain r6 w6 where a6: "playwright_drive_file e outputPath isVideo w5 = (r6, w6)"
          by (cases "playwright_drive_file e outputPath isVideo w5") auto
        with playwright_drive_file_log [of e outputPath isVideo w5]
        have "requests w6 = requests w5"
          by simp
        with df False a6 l4 l5 show ?thesis by simp
      qed
    qed
  qed
  from first yes no show ?thesis
    by blast
qed

theorem token_before_blind_retry_witness:
  "downloadFile token_env ''https://drive.google.com/file/d/XYZ9/view'' ''assets/module_0.mp4''
     True empty_world =
   Some (Some ''assets/module_0.mp4'',
     \<lparr>files = (\<lambda>p. None)(''assets/module_0.mp4'' \<mapsto> big_mp4),
      requests = [downloadUrl_of ''XYZ9'', downloadUrl_of ''XYZ9'',
                  tokenUrl_of ''XYZ9'' ''abc123''], pages = 0\<rparr>)"
  using token_before_blind_retry [where w = empty_world and isVideo = True,
      OF token_example_url(1) token_example_url(2)
      token_example_net(1) token_example_net(1) token_example_page(1) token_example_page(2)
      token_example_page(3) _ token_example_attempt]
    token_example_page(4)
  by (simp add: empty_world_def writeFile_def)

section \<open>Properties of the asset loop\<close>

lemma module_not_diagram:
  assumes "type slide = ''module_description''"
  shows "slide_assets e skip assetsDir i slide st = module_assets e skip assetsDir i slide st"
  using assms by (simp add: slide_assets_def)

lemma module_assets_fetches:
  assumes "module_assets e skip assetsDir i slide st = Some st'"
  shows "fetches st' = fetches st @
     (if videoUrl_of slide \<noteq> [] then
        (if skip then []
         else [VideoFetch (videoUrl_of slide) (mediaPath_of assetsDir i (videoUrl_of slide) ''.mp4'')])
      else if imageUrl_of slide \<noteq> [] then
        [ImageFetch (imageUrl_of slide) (mediaPath_of assetsDir i (imageUrl_of slide) ''.png'')]
      else [])"
proof (cases "videoUrl_of slide \<noteq> [] \<and> \<not> skip")
  case True
  with assms show ?thesis
    by (auto simp: module_assets_def Let_def bind_eq_Some_conv split: option.splits if_splits)
next
  case False
  with assms show ?thesis
    by (auto simp: module_assets_def Let_def split: option.splits if_splits prod.splits)
qed

lemma module_assets_image_ignored:
  assumes "videoUrl_of slide \<noteq> []"
  shows "module_assets e skip assetsDir i (slide\<lparr>own_image_url := a, content_image_url := b\<rparr>) st
       = module_assets e skip assetsDir i slide st"
proof -
  have "videoUrl_of (slide\<lparr>own_image_url := a, content_image_url := b\<rparr>) = videoUrl_of slide"
    by (simp add: videoUrl_of_def)
  with assms show ?thesis
    by (simp add: module_assets_def Let_def)
qed

lemma module_slide_example:
  "type (module_slide x y) = ''module_description''"
  "videoUrl_of (module_slide ''https://service/uc?id=XYZ9'' y) = ''https://service/uc?id=XYZ9''"
  "videoUrl_of (module_slide [] y) = []"
  "imageUrl_of (module_slide x []) = []"
  "mediaPath_of ''assets'' 0 ''https://service/uc?id=XYZ9'' ''.mp4'' = ''assets/module_0.mp4''"
  by (simp_all add: videoUrl_of_def imageUrl_of_def first_url_def module_slide_def or_empty_def
      trim_def is_space_def) code_simp

lemma video_step_example:
  "slide_assets html_env False ''assets'' 0
     (module_slide ''https://service/uc?id=XYZ9'' ''https://other-host.example/logo.png'')
     start_pipeline =
   Some \<lparr>world = \<lparr>files = (\<lambda>p. None)(''assets/module_0.mp4'' \<mapsto> warning_page),
                  requests = [''https://service/uc?id=XYZ9''], pages = 0\<rparr>,
         assetMap = (\<lambda>i. None)(0 \<mapsto> video_failed ''https://service/uc?id=XYZ9''),
         fetches = [VideoFetch ''https://service/uc?id=XYZ9'' ''assets/module_0.mp4'']\<rparr>"
  unfolding module_not_diagram [OF module_slide_example(1)] module_assets_def
  by (simp add: Let_def module_slide_example start_pipeline_def downloadVideo_def
      downloadFile_html_plain)

text \<open>
  Claim C4, as stated: a non-empty video URL means that a video fetch, and nothing else, is
  attempted.  With \<open>SKIP_VIDEO_DOWNLOAD\<close> set, a slide with a video URL gets no fetch at all,
  only the \<open>video_failed\<close> entry; and a video URL of two spaces, which is not the empty
  string, is trimmed to the empty string, so the image URL is fetched.
\<close>

theorem video_priority_counterexample:
  "videoUrl_of (module_slide ''https://service/uc?id=XYZ9'' ''https://other-host.example/logo.png'')
     \<noteq> [] \<and>
   map_option fetches (slide_assets html_env True ''assets'' 0
      (module_slide ''https://service/uc?id=XYZ9'' ''https://other-host.example/logo.png'')
      start_pipeline) = Some [] \<and>
   content_video_url (module_slide ''  '' ''https://other-host.example/logo.png'') = Some ''  '' \<and>
   ''  '' \<noteq> [] \<and>
   map_option fetches (slide_assets html_env False ''assets'' 0
      (module_slide ''  '' ''https://other-host.example/logo.png'') start_pipeline) =
     Some [ImageFetch ''https://other-host.example/logo.png'' ''assets/module_0.png'']"
proof -
  have v: "videoUrl_of (module_slide ''https://service/uc?id=XYZ9''
             ''https://other-host.example/logo.png'') = ''https://service/uc?id=XYZ9''"
    by (simp add: videoUrl_of_def first_url_def module_slide_def or_empty_def trim_def
        is_space_def)
  have b: "videoUrl_of (module_slide ''  '' ''https://other-host.example/logo.png'') = []"
    "imageUrl_of (module_slide ''  '' ''https://other-host.example/logo.png'') =
       ''https://other-host.example/logo.png''"
    by (simp_all add: videoUrl_of_def imageUrl_of_def first_url_def module_slide_def or_empty_def
        trim_def is_space_def)
  have m: "mediaPath_of ''assets'' 0 ''https://other-host.example/logo.png'' ''.png'' =
      ''assets/module_0.png''"
    by code_simp
  have ty: "type (module_slide x y) = ''module_description''" for x y
    by (simp add: module_slide_def)
  have one: "slide_assets html_env True ''assets'' 0
      (module_slide ''https://service/uc?id=XYZ9'' ''https://other-host.example/logo.png'')
      start_pipeline =
      Some (start_pipeline\<lparr>assetMap := (assetMap start_pipeline)(0 \<mapsto>
              video_failed ''https://service/uc?id=XYZ9'')\<rparr>)"
    unfolding module_not_diagram [OF ty] module_assets_def
    by (simp add: Let_def v)
  have two: "slide_assets html_env False ''assets'' 0
      (module_slide ''  '' ''https://other-host.example/logo.png'') start_pipeline =
      Some \<lparr>world = \<lparr>files = (\<lambda>p. None)(''assets/module_0.png'' \<mapsto> warning_page),
                     requests = [''https://other-host.example/logo.png''], pages = 0\<rparr>,
            assetMap = (\<lambda>i. None)(0 \<mapsto>
              \<lparr>asset_type = ''image'', asset_path = Some ''assets/module_0.png'',
               asset_video_url = None, insertion_attempted = None\<rparr>),
            fetches = [ImageFetch ''https://other-host.example/logo.png''
                         ''assets/module_0.png'']\<rparr>"
    unfolding module_not_diagram [OF ty] module_assets_def
    by (simp add: Let_def b m start_pipeline_def downloadImage_html_plain)
  show ?thesis
    unfolding one two using v by (simp add: start_pipeline_def module_slide_def)
qed

text \<open>
  Claim C4, amended.  For a module-description slide, with the video URL and the image URL
  taken after trimming white space: if the video URL is non-empty, the image URL is never
  consulted (the step does the same whatever the image URL is), and the only fetch is one
  video fetch, or none at all when \<open>SKIP_VIDEO_DOWNLOAD\<close> is set, in which case only the
  \<open>video_failed\<close> entry is recorded; the image URL is fetched, once, only when the video URL
  is empty; and when both are empty the step changes nothing: no fetch, no file, no entry in
  the asset map.
\<close>

theorem module_media_priority:
  assumes "type slide = ''module_description''"
  shows "(videoUrl_of slide \<noteq> [] \<longrightarrow>
            slide_assets e skip assetsDir i
              (slide\<lparr>own_image_url := a, content_image_url := b\<rparr>) st =
            slide_assets e skip assetsDir i slide st) \<and>
         (slide_assets e skip assetsDir i slide st = Some st' \<longrightarrow>
            fetches st' = fetches st @
              (if videoUrl_of slide \<noteq> [] then
                 (if skip then []
                  else [VideoFetch (videoUrl_of slide)
                          (mediaPath_of assetsDir i (videoUrl_of slide) ''.mp4'')])
               else if imageUrl_of slide \<noteq> [] then
                 [ImageFetch (imageUrl_of slide)
                    (mediaPath_of assetsDir i (imageUrl_of slide) ''.png'')]
               else [])) \<and>
         (videoUrl_of slide \<noteq> [] \<and> skip \<longrightarrow>
            slide_assets e skip assetsDir i slide st =
              Some (st\<lparr>assetMap := (assetMap st)(i \<mapsto> video_failed (videoUrl_of slide))\<rparr>)) \<and>
         (videoUrl_of slide = [] \<and> imageUrl_of slide = [] \<longrightarrow>
            slide_assets e skip assetsDir i slide st = Some st)"
proof -
  have ty: "type (slide\<lparr>own_image_url := a, content_image_url := b\<rparr>) = ''module_description''"
    using assms by simp
  have one: "videoUrl_of slide \<noteq> [] \<longrightarrow>
            slide_assets e skip assetsDir i
              (slide\<lparr>own_image_url := a, content_image_url := b\<rparr>) st =
            slide_assets e skip assetsDir i slide st"
    unfolding module_not_diagram [OF ty] module_not_diagram [OF assms]
    using module_assets_image_ignored by blast
  have two: "slide_assets e skip assetsDir i slide st = Some st' \<longrightarrow>
            fetches st' = fetches st @
              (if videoUrl_of slide \<noteq> [] then
                 (if skip then []
                  else [VideoFetch (videoUrl_of slide)
                          (mediaPath_of assetsDir i (videoUrl_of slide) ''.mp4'')])
               else if imageUrl_of slide \<noteq> [] then
                 [ImageFetch (imageUrl_of slide)
                    (mediaPath_of assetsDir i (imageUrl_of slide) ''.png'')]
               else [])"
    unfolding module_not_diagram [OF assms]
    using module_assets_fetches by blast
  have three: "videoUrl_of slide \<noteq> [] \<and> skip \<longrightarrow>
            slide_assets e skip assetsDir i slide st =
              Some (st\<lparr>assetMap := (assetMap st)(i \<mapsto> video_failed (videoUrl_of slide))\<rparr>)"
    unfolding module_not_diagram [OF assms]
    by (simp add: module_assets_def Let_def)
  have four: "videoUrl_of slide = [] \<and> imageUrl_of slide = [] \<longrightarrow>
            slide_assets e skip assetsDir i slide st = Some st"
    unfolding module_not_diagram [OF assms]
    by (simp add: module_assets_def Let_def)
  from one two three four show ?thesis
    by blast
qed

theorem module_media_priority_witness:
  "slide_assets html_env False ''assets'' 0
     (module_slide ''https://service/uc?id=XYZ9'' ''https://other-host.example/other.png'')
     start_pipeline =
   slide_assets html_env False ''assets'' 0
     (module_slide ''https://service/uc?id=XYZ9'' ''https://other-host.example/logo.png'')
     start_pipeline \<and>
   map_option fetches (slide_assets html_env False ''assets'' 0
     (module_slide ''https://service/uc?id=XYZ9'' ''https://other-host.example/logo.png'')
     start_pipeline) =
     Some [VideoFetch ''https://service/uc?id=XYZ9'' ''assets/module_0.mp4''] \<and>
   slide_assets html_env True ''assets'' 0
     (module_slide ''https://service/uc?id=XYZ9'' ''https://other-host.example/logo.png'')
     start_pipeline =
     Some (start_pipeline\<lparr>assetMap := (assetMap start_pipeline)(0 \<mapsto>
             video_failed ''https://service/uc?id=XYZ9'')\<rparr>) \<and>
   slide_assets html_env False ''assets'' 0 (module_slide [] []) start_pipeline =
     Some start_pipeline"
proof -
  note a = module_media_priority
      [where slide = "module_slide ''https://service/uc?id=XYZ9''
                        ''https://other-host.example/logo.png''"
        and e = html_env and skip = False and assetsDir = "''assets''" and i = 0
        and a = None and b = "Some ''https://other-host.example/other.png''"
        and st = start_pipeline
        and st' = "\<lparr>world = \<lparr>files = (\<lambda>p. None)(''assets/module_0.mp4'' \<mapsto> warning_page),
                  requests = [''https://service/uc?id=XYZ9''], pages = 0\<rparr>,
           assetMap = (\<lambda>i. None)(0 \<mapsto> video_failed ''https://service/uc?id=XYZ9''),
           fetches = [VideoFetch ''https://service/uc?id=XYZ9'' ''assets/module_0.mp4'']\<rparr>",
       OF module_slide_example(1)]
  note b = module_media_priority
      [where slide = "module_slide ''https://service/uc?id=XYZ9''
                        ''https://other-host.example/logo.png''"
        and e = html_env and skip = True and assetsDir = "''assets''" and i = 0
        and st = start_pipeline, OF module_slide_example(1)]
  note c = module_media_priority
      [where slide = "module_slide [] []"
        and e = html_env and skip = False and assetsDir = "''assets''" and i = 0
        and st = start_pipeline, OF module_slide_example(1)]
  have upd: "(module_slide ''https://service/uc?id=XYZ9'' ''https://other-host.example/logo.png'')
      \<lparr>own_image_url := None, content_image_url := Some ''https://other-host.example/other.png''\<rparr>
      = module_slide ''https://service/uc?id=XYZ9'' ''https://other-host.example/other.png''"
    by (simp add: module_slide_def)
  from a have "slide_assets html_env False ''assets'' 0
     (module_slide ''https://service/uc?id=XYZ9'' ''https://other-host.example/other.png'')
     start_pipeline =
   slide_assets html_env False ''assets'' 0
     (module_slide ''https://service/uc?id=XYZ9'' ''https://other-host.example/logo.png'')
     start_pipeline"
    by (simp add: upd module_slide_example)
  moreover from b have "slide_assets html_env True ''assets'' 0
     (module_slide ''https://service/uc?id=XYZ9'' ''https://other-host.example/logo.png'')
     start_pipeline =
     Some (start_pipeline\<lparr>assetMap := (assetMap start_pipeline)(0 \<mapsto>
             video_failed ''https://service/uc?id=XYZ9'')\<rparr>)"
    by (simp add: module_slide_example)
  moreover from c have "slide_assets html_env False ''assets'' 0 (module_slide [] [])
     start_pipeline = Some start_pipeline"
    by (simp add: module_slide_example)
  ultimately show ?thesis
    by (simp add: video_step_example)
qed

end
